theory Spec2Isabelle
  imports Main "HOL-Library.Log_Nat"
begin

section \<open>JavaScript values\<close>

subsection \<open>Numbers\<close>

text \<open>
  A JavaScript number is an IEEE 754 binary64 value: a finite rational, one of the two
  infinities, or NaN. Arithmetic rounds its exact result to the nearest representable
  value, ties to even. The two zeros of IEEE 754 are identified: the sign of a zero only
  shows in the sign of an infinity obtained by dividing by it, and \<open>x / 0\<close> takes the
  sign of \<open>x\<close> here.
\<close>

datatype jsnum = Fin rat | PosInf | NegInf | NaN

definition round_half_even :: "rat \<Rightarrow> int" where
  "round_half_even q =
     (let f = \<lfloor>q\<rfloor>; d = q - of_int f
      in if d < 1 / 2 then f else if 1 / 2 < d then f + 1
         else if even f then f else f + 1)"

definition floor_log2 :: "rat \<Rightarrow> int" where
  \<comment> \<open>for \<open>0 < a\<close>: the integer \<open>k\<close> with \<open>2 ^ k \<le> a < 2 ^ (k + 1)\<close>\<close>
  "floor_log2 a =
     (case quotient_of a of (p, d) \<Rightarrow>
        let k = bitlen p - bitlen d in if 2 powi k \<le> a then k else k - 1)"

definition fl :: "rat \<Rightarrow> jsnum" where
  \<comment> \<open>rounding to binary64: 53 significant bits, least exponent \<open>-1074\<close>, overflow to infinity\<close>
  "fl q =
     (if q = 0 then Fin 0
      else
        let a = \<bar>q\<bar>;
            e = max (floor_log2 a - 52) (- 1074);
            m = round_half_even (a / 2 powi e)
        in if 971 < e \<or> (e = 971 \<and> 9007199254740992 \<le> m)
           then (if 0 < q then PosInf else NegInf)
           else Fin ((if 0 < q then 1 else - 1) * of_int m * 2 powi e))"

definition sign_of :: "jsnum \<Rightarrow> int" where
  "sign_of x =
     (case x of Fin a \<Rightarrow> (if 0 < a then 1 else if a < 0 then - 1 else 0)
      | PosInf \<Rightarrow> 1 | NegInf \<Rightarrow> - 1 | NaN \<Rightarrow> 0)"

definition inf_of_sign :: "int \<Rightarrow> jsnum" where
  "inf_of_sign s = (if 0 < s then PosInf else NegInf)"

fun js_mul :: "jsnum \<Rightarrow> jsnum \<Rightarrow> jsnum" where
  "js_mul NaN y = NaN"
| "js_mul x NaN = NaN"
| "js_mul (Fin a) (Fin b) = fl (a * b)"
| "js_mul x y =
     (if sign_of x * sign_of y = 0 then NaN else inf_of_sign (sign_of x * sign_of y))"

fun js_div :: "jsnum \<Rightarrow> jsnum \<Rightarrow> jsnum" where
  "js_div NaN y = NaN"
| "js_div x NaN = NaN"
| "js_div (Fin a) (Fin b) =
     (if b = 0 then (if a = 0 then NaN else inf_of_sign (sign_of (Fin a))) else fl (a / b))"
| "js_div (Fin a) y = Fin 0"
| "js_div x (Fin b) = inf_of_sign (sign_of x * (if b < 0 then - 1 else 1))"
| "js_div x y = NaN"

fun js_floor :: "jsnum \<Rightarrow> jsnum" where
  "js_floor (Fin a) = Fin (of_int \<lfloor>a\<rfloor>)"
| "js_floor x = x"

fun js_lt :: "jsnum \<Rightarrow> jsnum \<Rightarrow> bool" where
  "js_lt NaN y = False"
| "js_lt x NaN = False"
| "js_lt (Fin a) (Fin b) = (a < b)"
| "js_lt x PosInf = (x \<noteq> PosInf)"
| "js_lt NegInf y = (y \<noteq> NegInf)"
| "js_lt x y = False"

definition truthy_num :: "jsnum \<Rightarrow> bool" where
  \<comment> \<open>a number is falsy when it is zero or NaN\<close>
  "truthy_num x = (x \<noteq> Fin 0 \<and> x \<noteq> NaN)"

definition round_num :: "jsnum \<Rightarrow> jsnum" where
  \<comment> \<open>the binary64 value nearest to an exactly given value\<close>
  "round_num x = (case x of Fin q \<Rightarrow> fl q | _ \<Rightarrow> x)"

definition js_neg :: "jsnum \<Rightarrow> jsnum" where
  "js_neg x = (case x of Fin q \<Rightarrow> Fin (- q) | PosInf \<Rightarrow> NegInf | NegInf \<Rightarrow> PosInf | NaN \<Rightarrow> NaN)"

subsection \<open>Strings\<close>

text \<open>
  A string is a list of code units; the code units modelled are those below 256. The
  white space of the language in that range is tab, line feed, vertical tab, form feed,
  carriage return, space and no-break space.
\<close>

definition is_digit :: "char \<Rightarrow> bool" where
  "is_digit c = (48 \<le> (of_char c :: nat) \<and> (of_char c :: nat) \<le> 57)"

definition is_space :: "char \<Rightarrow> bool" where
  "is_space c = ((of_char c :: nat) \<in> {9, 10, 11, 12, 13, 32, 160})"

definition digit_val :: "char \<Rightarrow> nat" where
  \<comment> \<open>value of a digit in any base up to 16; 99 for other characters\<close>
  "digit_val c =
     (let n = (of_char c :: nat)
      in if 48 \<le> n \<and> n \<le> 57 then n - 48
         else if 97 \<le> n \<and> n \<le> 102 then n - 87
         else if 65 \<le> n \<and> n \<le> 70 then n - 55
         else 99)"

definition digits_value :: "nat \<Rightarrow> string \<Rightarrow> nat" where
  "digits_value base ds = foldl (\<lambda>n c. base * n + digit_val c) 0 ds"

definition trim :: "string \<Rightarrow> string" where
  "trim s = rev (dropWhile is_space (rev (dropWhile is_space s)))"

fun starts_with :: "string \<Rightarrow> string \<Rightarrow> bool" where
  "starts_with s [] = True"
| "starts_with [] (p # ps) = False"
| "starts_with (c # cs) (p # ps) = (c = p \<and> starts_with cs ps)"

definition join :: "string \<Rightarrow> string list \<Rightarrow> string" where
  \<comment> \<open>\<open>Array.prototype.join\<close>\<close>
  "join sep xs = (case xs of [] \<Rightarrow> [] | x # rest \<Rightarrow> foldl (\<lambda>acc y. acc @ sep @ y) x rest)"

subsection \<open>Numbers to strings\<close>

text \<open>
  \<open>Number::toString\<close>, on the binary64 value nearest to the given one: the digits are the shortest decimal \<open>s \<times> 10 ^ (n - k)\<close>, with \<open>k\<close>
  digits, that rounds to the number; among several of that length, the one nearest to it.
\<close>

definition digit_char :: "nat \<Rightarrow> char" where
  "digit_char n = ''0123456789'' ! n"

fun digits :: "nat \<Rightarrow> string" where
  "digits n = (if n < 10 then [digit_char n] else digits (n div 10) @ [digit_char (n mod 10)])"

declare digits.simps [simp del]

definition floor_log10 :: "rat \<Rightarrow> int" where
  \<comment> \<open>for \<open>0 < a\<close>: the integer \<open>k\<close> with \<open>10 ^ k \<le> a < 10 ^ (k + 1)\<close>\<close>
  "floor_log10 a =
     (case quotient_of a of (p, d) \<Rightarrow>
        let k = int (floorlog 10 (nat p)) - int (floorlog 10 (nat d))
        in if 10 powi k \<le> a then k else k - 1)"

fun shortest_digits :: "nat \<Rightarrow> rat \<Rightarrow> int \<Rightarrow> nat \<Rightarrow> nat \<times> nat \<times> int" where
  "shortest_digits 0 x n k = (nat \<lfloor>x / 10 powi (n - int k)\<rfloor>, k, n)"
| "shortest_digits (Suc fuel) x n k =
     (let sc = 10 powi (n - int k);
          lo = nat \<lfloor>x / sc\<rfloor>;
          hi = lo + 1;
          oklo = (fl (of_nat lo * sc) = Fin x);
          okhi = (fl (of_nat hi * sc) = Fin x);
          dlo = x - of_nat lo * sc;
          dhi = of_nat hi * sc - x;
          s = (if oklo \<and> okhi
               then (if dlo < dhi then lo else if dhi < dlo then hi
                     else if even lo then lo else hi)
               else if oklo then lo else hi)
      in if oklo \<or> okhi
         then (if s = 10 ^ k then (10 ^ (k - 1), k, n + 1) else (s, k, n))
         else shortest_digits fuel x n (k + 1))"

definition format_digits :: "nat \<times> nat \<times> int \<Rightarrow> string" where
  "format_digits t =
     (case t of (s, k, n) \<Rightarrow>
        let ds = digits s;
            ex = (if n - 1 < 0 then ''-'' else ''+'') @ digits (nat \<bar>n - 1\<bar>)
        in if int k \<le> n \<and> n \<le> 21 then ds @ replicate (nat (n - int k)) CHR ''0''
           else if 0 < n \<and> n \<le> 21 then take (nat n) ds @ ''.'' @ drop (nat n) ds
           else if - 6 < n \<and> n \<le> 0 then ''0.'' @ replicate (nat (- n)) CHR ''0'' @ ds
           else if k = 1 then ds @ ''e'' @ ex
           else take 1 ds @ ''.'' @ drop 1 ds @ ''e'' @ ex)"

definition number_to_string :: "jsnum \<Rightarrow> string" where
  "number_to_string x =
     (case round_num x of
        NaN \<Rightarrow> ''NaN''
      | PosInf \<Rightarrow> ''Infinity''
      | NegInf \<Rightarrow> ''-Infinity''
      | Fin q \<Rightarrow>
          if q = 0 then ''0''
          else (if q < 0 then ''-'' else [])
               @ format_digits (shortest_digits 17 \<bar>q\<bar> (floor_log10 \<bar>q\<bar> + 1) 1))"

subsection \<open>Strings to numbers\<close>

text \<open>
  The longest prefix of a string that is a decimal literal (\<open>StrDecimalLiteral\<close>):
  an optional sign, then \<open>Infinity\<close> or digits with an optional fraction and an optional
  exponent. The value is returned exactly, with the rest of the string.
\<close>

definition parse_exponent :: "string \<Rightarrow> int \<times> string" where
  "parse_exponent r =
     (case r of
        [] \<Rightarrow> (0, r)
      | c # t \<Rightarrow>
          if c = CHR ''e'' \<or> c = CHR ''E'' then
            (let neg = (case t of [] \<Rightarrow> False | d # u \<Rightarrow> d = CHR ''-'');
                 t' = (case t of [] \<Rightarrow> t | d # u \<Rightarrow> if d = CHR ''+'' \<or> d = CHR ''-'' then u else t);
                 ds = takeWhile is_digit t'
             in if ds = [] then (0, r)
                else ((if neg then - 1 else 1) * int (digits_value 10 ds), dropWhile is_digit t'))
          else (0, r))"

definition parse_unsigned :: "string \<Rightarrow> (jsnum \<times> string) option" where
  "parse_unsigned s =
     (if starts_with s ''Infinity'' then Some (PosInf, drop 8 s)
      else
        let ip = takeWhile is_digit s;
            r1 = dropWhile is_digit s;
            dot = (case r1 of [] \<Rightarrow> False | c # t \<Rightarrow> c = CHR ''.'');
            fp = (if dot then takeWhile is_digit (tl r1) else []);
            r2 = (if dot then dropWhile is_digit (tl r1) else r1)
        in if ip = [] \<and> fp = [] then None
           else
             (case parse_exponent r2 of (ex, r3) \<Rightarrow>
                Some (Fin (of_nat (digits_value 10 (ip @ fp)) / 10 ^ length fp * 10 powi ex), r3)))"

definition parse_signed :: "string \<Rightarrow> (jsnum \<times> string) option" where
  "parse_signed s =
     (case s of
        [] \<Rightarrow> None
      | c # t \<Rightarrow>
          if c = CHR ''+'' then parse_unsigned t
          else if c = CHR ''-'' then map_option (\<lambda>(v, r). (js_neg v, r)) (parse_unsigned t)
          else parse_unsigned s)"

definition parseFloat :: "string \<Rightarrow> jsnum" where
  "parseFloat s =
     (case parse_signed (dropWhile is_space s) of
        None \<Rightarrow> NaN
      | Some (v, r) \<Rightarrow> round_num v)"

definition based_literal :: "nat \<Rightarrow> string \<Rightarrow> jsnum" where
  \<comment> \<open>the digits of a \<open>0x\<close>, \<open>0o\<close> or \<open>0b\<close> literal\<close>
  "based_literal base ds =
     (if ds \<noteq> [] \<and> list_all (\<lambda>c. digit_val c < base) ds
      then fl (of_nat (digits_value base ds)) else NaN)"

definition string_to_number :: "string \<Rightarrow> jsnum" where
  \<comment> \<open>\<open>Number(s)\<close> on a string: the whole trimmed string has to be a numeric literal\<close>
  "string_to_number s =
     (let t = trim s
      in if t = [] then Fin 0
         else if starts_with t ''0x'' \<or> starts_with t ''0X'' then based_literal 16 (drop 2 t)
         else if starts_with t ''0o'' \<or> starts_with t ''0O'' then based_literal 8 (drop 2 t)
         else if starts_with t ''0b'' \<or> starts_with t ''0B'' then based_literal 2 (drop 2 t)
         else
           (case parse_signed t of
              Some (v, []) \<Rightarrow> round_num v
            | _ \<Rightarrow> NaN))"

text \<open>
  The regular expression \<open>/(\d+)\s*[/:]\s*(\d+)/\<close> of \<open>String.prototype.match\<close>:
  the leftmost position at which a run of digits, optional white space, one of \<open>/\<close> and
  \<open>:\<close>, optional white space and a run of digits follow each other. Each run is
  maximal, since a shorter one is followed by a character of the same class; the two
  capture groups are returned.
\<close>

definition ratio_match_here :: "string \<Rightarrow> (string \<times> string) option" where
  "ratio_match_here s =
     (let num = takeWhile is_digit s;
          r1 = dropWhile is_space (dropWhile is_digit s)
      in if num = [] then None
         else
           (case r1 of
              [] \<Rightarrow> None
            | c # r2 \<Rightarrow>
                if c = CHR ''/'' \<or> c = CHR '':'' then
                  (let den = takeWhile is_digit (dropWhile is_space r2)
                   in if den = [] then None else Some (num, den))
                else None))"

fun ratio_match :: "string \<Rightarrow> (string \<times> string) option" where
  "ratio_match [] = None"
| "ratio_match (c # cs) =
     (case ratio_match_here (c # cs) of
        Some m \<Rightarrow> Some m
      | None \<Rightarrow> ratio_match cs)"

subsection \<open>Values of mixed type, objects and arrays\<close>

datatype jsval = JUndefined | JNull | JNum jsnum | JStr string

definition truthy :: "jsval \<Rightarrow> bool" where
  "truthy v =
     (case v of JUndefined \<Rightarrow> False | JNull \<Rightarrow> False
      | JNum n \<Rightarrow> truthy_num n | JStr s \<Rightarrow> s \<noteq> [])"

definition to_number :: "jsval \<Rightarrow> jsnum" where
  \<comment> \<open>\<open>Number(v)\<close>\<close>
  "to_number v =
     (case v of JUndefined \<Rightarrow> NaN | JNull \<Rightarrow> Fin 0
      | JNum n \<Rightarrow> n | JStr s \<Rightarrow> string_to_number s)"

definition number_or_undefined :: "jsnum option \<Rightarrow> jsnum option" where
  \<comment> \<open>\<open>Number(x) || undefined\<close> for \<open>x\<close> a number or undefined\<close>
  "number_or_undefined x =
     (case x of None \<Rightarrow> None | Some n \<Rightarrow> if truthy_num n then Some n else None)"

definition of_opt_num :: "jsnum option \<Rightarrow> jsval" where
  "of_opt_num x = (case x of None \<Rightarrow> JUndefined | Some n \<Rightarrow> JNum n)"

definition of_opt_str :: "string option \<Rightarrow> jsval" where
  "of_opt_str x = (case x of None \<Rightarrow> JUndefined | Some s \<Rightarrow> JStr s)"

text \<open>
  An object whose keys are not array indices lists its properties in the order in which
  they were first written; writing to a key that is there replaces the value in place.
\<close>

fun obj_put :: "(string \<times> 'v) list \<Rightarrow> string \<Rightarrow> 'v \<Rightarrow> (string \<times> 'v) list" where
  "obj_put [] k v = [(k, v)]"
| "obj_put ((k', v') # r) k v = (if k' = k then (k, v) # r else (k', v') # obj_put r k v)"

definition fromEntries :: "(string \<times> 'v) list \<Rightarrow> (string \<times> 'v) list" where
  \<comment> \<open>\<open>Object.fromEntries\<close>, read back by \<open>Object.entries\<close>\<close>
  "fromEntries es = foldl (\<lambda>obj (k, v). obj_put obj k v) [] es"

definition get_prop :: "(string \<rightharpoonup> jsval) \<Rightarrow> string \<Rightarrow> jsval" where
  \<comment> \<open>reading a property: a missing one reads as undefined\<close>
  "get_prop obj k = (case obj k of None \<Rightarrow> JUndefined | Some v \<Rightarrow> v)"

text \<open>
  \<open>[...new Set(xs)]\<close> keeps the first occurrence of every value, in order.
  \<open>Array.prototype.sort\<close> with a comparator is modelled by insertion from the right,
  which is stable; \<open>gt x y\<close> says that the comparator is positive on \<open>(x, y)\<close>. The
  comparator \<open>(a, b) => a - b\<close> is positive exactly when \<open>b < a\<close>, as the difference of
  two distinct binary64 numbers is never rounded to zero, and it is NaN, which counts as
  zero, when one of the two is NaN. The language leaves the order open when the comparator
  is not consistent, which here is the case of an array that has NaN and other numbers.
\<close>

definition set_values :: "'a list \<Rightarrow> 'a list" where
  "set_values xs = foldl (\<lambda>acc x. if x \<in> set acc then acc else acc @ [x]) [] xs"

fun sort_insert :: "('a \<Rightarrow> 'a \<Rightarrow> bool) \<Rightarrow> 'a \<Rightarrow> 'a list \<Rightarrow> 'a list" where
  "sort_insert gt x [] = [x]"
| "sort_insert gt x (y # ys) = (if gt x y then y # sort_insert gt x ys else x # y # ys)"

definition array_sort :: "('a \<Rightarrow> 'a \<Rightarrow> bool) \<Rightarrow> 'a list \<Rightarrow> 'a list" where
  "array_sort gt xs = foldr (sort_insert gt) xs []"

definition minus_positive :: "jsnum \<Rightarrow> jsnum \<Rightarrow> bool" where
  \<comment> \<open>\<open>a - b > 0\<close>\<close>
  "minus_positive a b = js_lt b a"

section \<open>Image attributes\<close>

datatype layout = Fixed | Constrained | FullWidth | Cover | Responsive | Contained

record image_metadata =
  img_src :: string
  img_width :: jsnum
  img_height :: jsnum

datatype image = ImageUrl string | ImageMeta image_metadata

definition deviceSizes :: "jsnum list" where
  \<comment> \<open>\<open>config.deviceSizes\<close>\<close>
  "deviceSizes = map Fin [640, 750, 828, 960, 1080, 1280, 1668, 1920, 2048, 2560, 3200,
     3840, 4480, 5120, 6016]"

definition computeHeight :: "jsnum \<Rightarrow> jsnum \<Rightarrow> jsnum" where
  "computeHeight width aspectRatio = js_floor (js_div width aspectRatio)"

definition parseAspectRatio :: "jsval \<Rightarrow> jsnum option" where
  "parseAspectRatio aspectRatio =
     (case aspectRatio of
        JNum n \<Rightarrow> Some n
      | JStr s \<Rightarrow>
          (case ratio_match s of
             Some (n, d) \<Rightarrow>
               (let num = string_to_number n; den = string_to_number d
                in if truthy_num den \<and> num \<noteq> NaN then Some (js_div num den) else None)
           | None \<Rightarrow>
               (let numericValue = parseFloat s
                in if numericValue \<noteq> NaN then Some numericValue else None))
      | _ \<Rightarrow> None)"

definition getSizes :: "jsnum option \<Rightarrow> layout option \<Rightarrow> string option" where
  "getSizes width layout =
     (case (number_or_undefined width, layout) of
        (Some w, Some Constrained) \<Rightarrow>
          Some (''(min-width: '' @ number_to_string w @ ''px) '' @ number_to_string w
                @ ''px, 100vw'')
      | (Some w, Some Fixed) \<Rightarrow> Some (number_to_string w @ ''px'')
      | (Some w, Some FullWidth) \<Rightarrow> Some ''100vw''
      | _ \<Rightarrow> None)"

definition pixelate :: "jsnum option \<Rightarrow> string option" where
  "pixelate v =
     (case v of
        None \<Rightarrow> None
      | Some n \<Rightarrow> if truthy_num n \<or> n = Fin 0 then Some (number_to_string n @ ''px'') else None)"

definition is_url :: "string option \<Rightarrow> bool" where
  "is_url background =
     (case background of
        None \<Rightarrow> False
      | Some b \<Rightarrow> starts_with b ''https:'' \<or> starts_with b ''http:'' \<or> starts_with b ''data:'')"

definition aspect_ratio_value :: "jsnum option \<Rightarrow> string option" where
  \<comment> \<open>\<open>aspectRatio ? `${aspectRatio}` : undefined\<close>\<close>
  "aspect_ratio_value aspectRatio =
     (case aspectRatio of
        None \<Rightarrow> None
      | Some a \<Rightarrow> if truthy_num a then Some (number_to_string a) else None)"

definition styleEntries ::
  "jsnum option \<Rightarrow> jsnum option \<Rightarrow> jsnum option \<Rightarrow> layout option \<Rightarrow> string option
    \<Rightarrow> string option \<Rightarrow> string option \<Rightarrow> (string \<times> string option) list" where
  "styleEntries width height aspectRatio layout objectFit objectPosition background =
     [(''object-fit'', Some (case objectFit of None \<Rightarrow> ''cover'' | Some f \<Rightarrow> f)),
      (''object-position'', Some (case objectPosition of None \<Rightarrow> ''center'' | Some p \<Rightarrow> p))]
     @ (if is_url background
        then [(''background-image'', Some (''url('' @ the background @ '')'')),
              (''background-size'', Some ''cover''),
              (''background-repeat'', Some ''no-repeat'')]
        else [(''background'', background)])
     @ (if layout = Some Fixed
        then [(''width'', pixelate width),
              (''height'', pixelate height),
              (''object-position'', Some ''top left'')]
        else [])
     @ (if layout = Some Constrained
        then [(''max-width'', pixelate width),
              (''max-height'', pixelate height),
              (''aspect-ratio'', aspect_ratio_value aspectRatio),
              (''width'', Some ''100%'')]
        else [])
     @ (if layout = Some FullWidth
        then [(''width'', Some ''100%''),
              (''aspect-ratio'', aspect_ratio_value aspectRatio),
              (''height'', pixelate height)]
        else [])
     @ (if layout = Some Responsive
        then [(''width'', Some ''100%''),
              (''height'', Some ''auto''),
              (''aspect-ratio'', aspect_ratio_value aspectRatio)]
        else [])
     @ (if layout = Some Contained
        then [(''max-width'', Some ''100%''),
              (''max-height'', Some ''100%''),
              (''object-fit'', Some ''contain''),
              (''aspect-ratio'', aspect_ratio_value aspectRatio)]
        else [])
     @ (if layout = Some Cover
        then [(''max-width'', Some ''100%''),
              (''max-height'', Some ''100%'')]
        else [])"

definition defined_entries :: "(string \<times> string option) list \<Rightarrow> (string \<times> string) list" where
  \<comment> \<open>\<open>filter(([, value]) => value)\<close>: the entries whose value is a non-empty string\<close>
  "defined_entries es =
     map (\<lambda>(k, v). (k, the v)) (filter (\<lambda>(k, v). v \<noteq> None \<and> v \<noteq> Some []) es)"

definition css_declaration :: "string \<times> string \<Rightarrow> string" where
  "css_declaration e = (case e of (key, v) \<Rightarrow> key @ '': '' @ v @ '';'')"

definition styles ::
  "jsnum option \<Rightarrow> jsnum option \<Rightarrow> jsnum option \<Rightarrow> layout option \<Rightarrow> string option
    \<Rightarrow> string option \<Rightarrow> string option \<Rightarrow> (string \<times> string) list" where
  "styles width height aspectRatio layout objectFit objectPosition background =
     fromEntries (defined_entries
       (styleEntries width height aspectRatio layout objectFit objectPosition background))"

definition getStyle ::
  "jsnum option \<Rightarrow> jsnum option \<Rightarrow> jsnum option \<Rightarrow> layout option \<Rightarrow> string option
    \<Rightarrow> string option \<Rightarrow> string option \<Rightarrow> string" where
  "getStyle width height aspectRatio layout objectFit objectPosition background =
     join '' '' (map css_declaration
       (styles width height aspectRatio layout objectFit objectPosition background))"

definition getBreakpoints :: "jsnum option \<Rightarrow> jsnum list option \<Rightarrow> layout \<Rightarrow> jsnum list" where
  "getBreakpoints width breakpoints layout =
     (if layout = FullWidth \<or> layout = Cover \<or> layout = Responsive \<or> layout = Contained
      then (case breakpoints of None \<Rightarrow> deviceSizes | Some b \<Rightarrow> b)
      else
        (case number_or_undefined width of
           None \<Rightarrow> []
         | Some w \<Rightarrow>
             (let doubleWidth = js_mul w (Fin 2)
              in if layout = Fixed then [w, doubleWidth]
                 else if layout = Constrained
                 then [w, doubleWidth]
                      @ filter (\<lambda>c. js_lt c doubleWidth)
                          (case breakpoints of None \<Rightarrow> deviceSizes | Some b \<Rightarrow> b)
                 else [])))"

subsection \<open>getImagesOptimized\<close>

text \<open>
  The hints of a call: the properties that \<open>getImagesOptimized\<close> takes out of its second
  argument by name, and \<open>prop_rest\<close>, the other properties of that object (so none of
  \<open>src\<close>, \<open>width\<close>, \<open>height\<close>, \<open>sizes\<close>, \<open>aspectRatio\<close>, \<open>widths\<close>, \<open>layout\<close>,
  \<open>style\<close> is a key of \<open>prop_rest\<close>). For \<open>sizes\<close> and \<open>widths\<close>, \<open>None\<close> stands for a
  property that is undefined or null; for \<open>layout\<close> and \<open>style\<close>, whose types have no
  null, for one that is undefined.
\<close>

record image_props =
  prop_width :: jsval
  prop_height :: jsval
  prop_sizes :: "string option"
  prop_aspectRatio :: jsval
  prop_widths :: "jsnum list option"
  prop_layout :: "layout option"
  prop_style :: "string option"
  prop_rest :: "string \<rightharpoonup> jsval"

text \<open>What \<open>console.error\<close> is called with: a message, or the label \<open>Image\<close> and the image.\<close>

datatype diagnostic = Diagnostic string | Diagnostic_image image

record optimized =
  src :: string
  attributes :: "string \<rightharpoonup> jsval"

definition intrinsic_width :: "image \<Rightarrow> jsval \<Rightarrow> jsval" where
  \<comment> \<open>\<open>width ||= Number(image.width) || undefined\<close>, when the image is not a string\<close>
  "intrinsic_width img width =
     (case img of
        ImageUrl u \<Rightarrow> width
      | ImageMeta m \<Rightarrow>
          if truthy width then width
          else of_opt_num (number_or_undefined (Some (img_width m))))"

definition intrinsic_height :: "image \<Rightarrow> jsval \<Rightarrow> jsval \<Rightarrow> jsval" where
  \<comment> \<open>\<open>height ||= typeof width === 'number' ? computeHeight(width, image.width / image.height) : undefined\<close>\<close>
  "intrinsic_height img width height =
     (case img of
        ImageUrl u \<Rightarrow> height
      | ImageMeta m \<Rightarrow>
          if truthy height then height
          else
            (case width of
               JNum w \<Rightarrow> JNum (computeHeight w (js_div (img_width m) (img_height m)))
             | _ \<Rightarrow> JUndefined))"

definition numeric_or_undefined :: "jsval \<Rightarrow> jsnum option" where
  \<comment> \<open>\<open>(x && Number(x)) || undefined\<close>\<close>
  "numeric_or_undefined x =
     (if truthy x then number_or_undefined (Some (to_number x)) else None)"

definition aspect_dimensions ::
  "jsnum option \<Rightarrow> jsnum option \<Rightarrow> jsnum option \<Rightarrow> layout \<Rightarrow> image
    \<Rightarrow> (jsnum option \<times> jsnum option \<times> jsnum option) \<times> diagnostic list" where
  \<comment> \<open>the block \<open>Calculate dimensions from aspect ratio\<close>\<close>
  "aspect_dimensions width height aspectRatio layout img =
     (case number_or_undefined aspectRatio of
        Some a \<Rightarrow>
          (case number_or_undefined width of
             Some w \<Rightarrow>
               (case number_or_undefined height of
                  Some h \<Rightarrow> ((width, height, aspectRatio), [])
                | None \<Rightarrow> ((width, Some (js_div w a), aspectRatio), []))
           | None \<Rightarrow>
               (case number_or_undefined height of
                  Some h \<Rightarrow> ((Some (js_mul h a), height, aspectRatio), [])
                | None \<Rightarrow>
                    ((width, height, aspectRatio),
                     if layout \<noteq> FullWidth
                     then [Diagnostic ''When aspectRatio is set, either width or height must also be set'',
                           Diagnostic_image img]
                     else [])))
      | None \<Rightarrow>
          (case (number_or_undefined width, number_or_undefined height) of
             (Some w, Some h) \<Rightarrow> ((width, height, Some (js_div w h)), [])
           | _ \<Rightarrow>
               ((width, height, aspectRatio),
                if layout \<noteq> FullWidth
                then [Diagnostic ''Either aspectRatio or both width and height must be set'',
                      Diagnostic_image img]
                else [])))"

definition props_layout :: "image_props \<Rightarrow> layout" where
  \<comment> \<open>\<open>layout = 'constrained'\<close> by default\<close>
  "props_layout props = (case prop_layout props of None \<Rightarrow> Constrained | Some l \<Rightarrow> l)"

definition props_widths :: "image_props \<Rightarrow> jsnum list" where
  \<comment> \<open>\<open>widths ||= config.deviceSizes\<close>\<close>
  "props_widths props = (case prop_widths props of None \<Rightarrow> deviceSizes | Some ws \<Rightarrow> ws)"

definition coerced_dimensions :: "image \<Rightarrow> image_props \<Rightarrow> jsnum option \<times> jsnum option" where
  \<comment> \<open>width and height after the intrinsic dimensions are taken and both are coerced\<close>
  "coerced_dimensions img props =
     (let width = intrinsic_width img (prop_width props);
          height = intrinsic_height img width (prop_height props)
      in (numeric_or_undefined width, numeric_or_undefined height))"

definition resolved_dimensions ::
  "image \<Rightarrow> image_props \<Rightarrow> (jsnum option \<times> jsnum option \<times> jsnum option) \<times> diagnostic list" where
  \<comment> \<open>width, height and aspect ratio after the block on the aspect ratio, with its diagnostics\<close>
  "resolved_dimensions img props =
     (case coerced_dimensions img props of
        (width, height) \<Rightarrow>
          aspect_dimensions width height (parseAspectRatio (prop_aspectRatio props))
            (props_layout props) img)"

definition resolved_sizes :: "image \<Rightarrow> image_props \<Rightarrow> string option" where
  \<comment> \<open>\<open>sizes ||= getSizes(Number(width) || undefined, layout)\<close>\<close>
  "resolved_sizes img props =
     (let computed = getSizes (number_or_undefined (fst (coerced_dimensions img props)))
                       (Some (props_layout props))
      in case prop_sizes props of
           None \<Rightarrow> computed
         | Some s \<Rightarrow> if s \<noteq> [] then Some s else computed)"

definition resolved_breakpoints :: "image \<Rightarrow> image_props \<Rightarrow> jsnum list" where
  \<comment> \<open>\<open>getBreakpoints\<close>, then \<open>[...new Set(breakpoints)].sort((a, b) => a - b)\<close>\<close>
  "resolved_breakpoints img props =
     (case resolved_dimensions img props of
        ((width, height, aspectRatio), diagnostics) \<Rightarrow>
          array_sort minus_positive
            (set_values (getBreakpoints width (Some (props_widths props)) (props_layout props))))"

definition srcset_of :: "(string \<times> jsnum) list \<Rightarrow> string" where
  "srcset_of entries =
     join '', '' (map (\<lambda>(url, width). url @ '' '' @ number_to_string width @ ''w'') entries)"

definition image_src :: "image \<Rightarrow> string" where
  "image_src img = (case img of ImageUrl u \<Rightarrow> u | ImageMeta m \<Rightarrow> img_src m)"

text \<open>
  The transform is a parameter; its promise resolves to a list of entries (\<open>Inr\<close>) or
  is rejected (\<open>Inl\<close>), and a rejection is the outcome of the whole call. The result is
  paired with the diagnostics written on the way.
\<close>

definition transform_call ::
  "image \<Rightarrow> image_props
    \<Rightarrow> (image \<Rightarrow> jsnum list \<Rightarrow> jsnum option \<Rightarrow> jsnum option \<Rightarrow> 'e + (string \<times> jsnum) list)
    \<Rightarrow> 'e + (string \<times> jsnum) list" where
  \<comment> \<open>\<open>await transform(image, breakpoints, Number(width) || undefined, Number(height) || undefined)\<close>\<close>
  "transform_call img props transform =
     (case resolved_dimensions img props of
        ((width, height, aspectRatio), diagnostics) \<Rightarrow>
          transform img (resolved_breakpoints img props)
            (number_or_undefined width) (number_or_undefined height))"

definition getImagesOptimized ::
  "image \<Rightarrow> image_props
    \<Rightarrow> (image \<Rightarrow> jsnum list \<Rightarrow> jsnum option \<Rightarrow> jsnum option \<Rightarrow> 'e + (string \<times> jsnum) list)
    \<Rightarrow> diagnostic list \<times> ('e + optimized)" where
  "getImagesOptimized img props transform =
     (case resolved_dimensions img props of
        ((width, height, aspectRatio), diagnostics) \<Rightarrow>
          (diagnostics,
           case transform_call img props transform of
             Inl e \<Rightarrow> Inl e
           | Inr entries \<Rightarrow>
               (let srcset = srcset_of entries
                in Inr \<lparr>src = image_src img,
                        attributes =
                          [''width'' \<mapsto> of_opt_num width,
                           ''height'' \<mapsto> of_opt_num height,
                           ''srcset'' \<mapsto> (if srcset \<noteq> [] then JStr srcset else JUndefined),
                           ''sizes'' \<mapsto> of_opt_str (resolved_sizes img props),
                           ''style'' \<mapsto>
                             JStr (getStyle width height aspectRatio (Some (props_layout props))
                                     None None None
                                   @ (case prop_style props of None \<Rightarrow> [] | Some s \<Rightarrow> s))]
                          ++ prop_rest props\<rparr>)))"

definition default_transform ::
  "image \<Rightarrow> jsnum list \<Rightarrow> jsnum option \<Rightarrow> jsnum option \<Rightarrow> unit + (string \<times> jsnum) list" where
  \<comment> \<open>the default of the parameter: \<open>() => Promise.resolve([])\<close>\<close>
  "default_transform img breakpoints width height = Inr []"

definition no_props :: image_props where
  \<comment> \<open>the hints object \<open>{}\<close>\<close>
  "no_props =
     \<lparr>prop_width = JUndefined, prop_height = JUndefined, prop_sizes = None,
      prop_aspectRatio = JUndefined, prop_widths = None, prop_layout = None,
      prop_style = None, prop_rest = Map.empty\<rparr>"

section \<open>Related posts\<close>

text \<open>
  A post, with the fields that \<open>getRelatedPosts\<close> reads. The collection that
  \<open>fetchPosts\<close> resolves to is a parameter. \<open>maxResults\<close> is a number, and the length
  of the list of selected posts is compared with it as a number. Scores are sums of 5 and
  1, so they are integers, and \<open>b.score - a.score\<close> is positive exactly when the score of
  \<open>a\<close> is below that of \<open>b\<close>.
\<close>

record taxonomy =
  slug :: string
  title :: string

record post =
  post_id :: string
  post_slug :: string
  category :: "taxonomy option"
  tags :: "taxonomy list option"

definition SCORE_POSTS_INCREMENT :: int where
  "SCORE_POSTS_INCREMENT = 5"

definition RELATED_POSTS_COUNT :: jsnum where
  "RELATED_POSTS_COUNT = Fin 4"

definition originalTagsSet :: "post \<Rightarrow> string set" where
  "originalTagsSet originalPost =
     set (case tags originalPost of None \<Rightarrow> [] | Some ts \<Rightarrow> map slug ts)"

definition same_category :: "post \<Rightarrow> post \<Rightarrow> bool" where
  "same_category originalPost iteratedPost =
     (case (category iteratedPost, category originalPost) of
        (Some c, Some c') \<Rightarrow> slug c = slug c'
      | _ \<Rightarrow> False)"

definition post_score :: "post \<Rightarrow> post \<Rightarrow> int" where
  "post_score originalPost iteratedPost =
     (let score0 = (if same_category originalPost iteratedPost then 0 + SCORE_POSTS_INCREMENT else 0)
      in case tags iteratedPost of
           None \<Rightarrow> score0
         | Some ts \<Rightarrow>
             foldl (\<lambda>score tag. if slug tag \<in> originalTagsSet originalPost then score + 1 else score)
               score0 ts)"

definition postsWithScores :: "post list \<Rightarrow> post \<Rightarrow> (post \<times> int) list" where
  "postsWithScores allPosts originalPost =
     foldl (\<lambda>acc iteratedPost.
              if post_slug iteratedPost = post_slug originalPost then acc
              else acc @ [(iteratedPost, post_score originalPost iteratedPost)])
       [] allPosts"

function select_posts :: "jsnum \<Rightarrow> (post \<times> int) list \<Rightarrow> post list \<Rightarrow> nat \<Rightarrow> post list" where
  "select_posts maxResults scored selectedPosts postsIterator =
     (if js_lt (Fin (of_nat (length selectedPosts))) maxResults \<and> postsIterator < length scored
      then select_posts maxResults scored
             (selectedPosts @ [fst (scored ! postsIterator)]) (Suc postsIterator)
      else selectedPosts)"
  by pat_completeness auto
termination
  by (relation "measure (\<lambda>(maxResults, scored, selectedPosts, postsIterator).
                  length scored - postsIterator)") auto

declare select_posts.simps [simp del]

definition getRelatedPosts :: "post list \<Rightarrow> post \<Rightarrow> jsnum \<Rightarrow> post list" where
  "getRelatedPosts allPosts originalPost maxResults =
     select_posts maxResults
       (array_sort (\<lambda>a b. 0 < snd b - snd a) (postsWithScores allPosts originalPost)) [] 0"

text \<open>
  The score as C10 words it: 5 when the category slugs of the two posts are equal, plus
  one for each tag of the post whose slug is among the slugs of the tags of the original.
\<close>

definition claimed_score :: "post \<Rightarrow> post \<Rightarrow> int" where
  "claimed_score originalPost p =
     (if \<exists>c c'. category p = Some c \<and> category originalPost = Some c' \<and> slug c = slug c'
      then 5 else 0)
     + int (length (filter (\<lambda>t. slug t \<in> slug ` set (case tags originalPost of None \<Rightarrow> [] | Some ts \<Rightarrow> ts))
                      (case tags p of None \<Rightarrow> [] | Some ts \<Rightarrow> ts)))"

definition example_post :: "string \<Rightarrow> string option \<Rightarrow> string list \<Rightarrow> post" where
  \<comment> \<open>a post whose id is its slug, with the given category and tags\<close>
  "example_post s c ts =
     \<lparr>post_id = s, post_slug = s,
      category = map_option (\<lambda>c. \<lparr>slug = c, title = c\<rparr>) c,
      tags = Some (map (\<lambda>t. \<lparr>slug = t, title = t\<rparr>) ts)\<rparr>"

section \<open>Properties\<close>

subsection \<open>Numbers and options\<close>

lemma fl_not_NaN: "fl q \<noteq> NaN"
  by (simp add: fl_def Let_def)

lemma number_or_undefined_Some:
  "number_or_undefined (Some n) = (if n = Fin 0 \<or> n = NaN then None else Some n)"
  by (simp add: number_or_undefined_def truthy_num_def)

lemma number_or_undefined_None: "number_or_undefined None = None"
  by (simp add: number_or_undefined_def)

lemma number_to_string_800: "number_to_string (Fin 800) = ''800''"
  by code_simp

subsection \<open>getSizes\<close>

text \<open>
  C8, as amended. \<open>getSizes\<close> returns undefined when the width or the layout is absent,
  and also when the width is zero or NaN; for any other width it returns
  \<open>(min-width: {width}px) {width}px, 100vw\<close> for the layout \<open>constrained\<close>, \<open>{width}px\<close>
  for \<open>fixed\<close>, \<open>100vw\<close> for \<open>fullWidth\<close>, and undefined for \<open>cover\<close>, \<open>responsive\<close>
  and \<open>contained\<close>.
\<close>

theorem getSizes_cases:
  "getSizes None layout = None \<and>
   getSizes width None = None \<and>
   getSizes (Some (Fin 0)) layout = None \<and>
   getSizes (Some NaN) layout = None \<and>
   (W \<noteq> Fin 0 \<and> W \<noteq> NaN \<longrightarrow>
      getSizes (Some W) (Some Constrained) =
        Some (''(min-width: '' @ number_to_string W @ ''px) '' @ number_to_string W
              @ ''px, 100vw'') \<and>
      getSizes (Some W) (Some Fixed) = Some (number_to_string W @ ''px'') \<and>
      getSizes (Some W) (Some FullWidth) = Some ''100vw'' \<and>
      getSizes (Some W) (Some Cover) = None \<and>
      getSizes (Some W) (Some Responsive) = None \<and>
      getSizes (Some W) (Some Contained) = None)"
  by (simp add: getSizes_def number_or_undefined_Some number_or_undefined_None
      split: option.splits)

theorem getSizes_cases_witness:
  "Fin 800 \<noteq> Fin 0 \<and> Fin 800 \<noteq> NaN \<and>
   getSizes (Some (Fin 800)) (Some Constrained) = Some ''(min-width: 800px) 800px, 100vw'' \<and>
   getSizes (Some (Fin 800)) (Some Fixed) = Some ''800px'' \<and>
   getSizes (Some (Fin 800)) (Some FullWidth) = Some ''100vw'' \<and>
   getSizes (Some (Fin 800)) (Some Cover) = None"
  using getSizes_cases [where W = "Fin 800"] number_to_string_800 by simp

text \<open>
  C8 as it was stated fails for the width 0 with the layout \<open>fixed\<close>: the width is there,
  and the result is undefined, not \<open>0px\<close>.
\<close>

theorem getSizes_zero_width_counterexample:
  "getSizes (Some (Fin 0)) (Some Fixed) \<noteq> Some (number_to_string (Fin 0) @ ''px'')"
  by (simp add: getSizes_def number_or_undefined_Some)

subsection \<open>getBreakpoints\<close>

lemma fl_1600: "fl 1600 = Fin 1600"
  by code_simp

lemma getBreakpoints_truthy:
  "W \<noteq> Fin 0 \<Longrightarrow> W \<noteq> NaN \<Longrightarrow>
   getBreakpoints (Some W) breakpoints layout =
     (if layout = FullWidth \<or> layout = Cover \<or> layout = Responsive \<or> layout = Contained
      then (case breakpoints of None \<Rightarrow> deviceSizes | Some b \<Rightarrow> b)
      else if layout = Fixed then [W, js_mul W (Fin 2)]
      else [W, js_mul W (Fin 2)]
           @ filter (\<lambda>c. js_lt c (js_mul W (Fin 2)))
               (case breakpoints of None \<Rightarrow> deviceSizes | Some b \<Rightarrow> b))"
  by (cases layout) (simp_all add: getBreakpoints_def number_or_undefined_Some Let_def)

lemma getBreakpoints_falsy:
  "width = None \<or> width = Some (Fin 0) \<or> width = Some NaN \<Longrightarrow>
   layout = Fixed \<or> layout = Constrained \<Longrightarrow>
   getBreakpoints width breakpoints layout = []"
  by (auto simp add: getBreakpoints_def number_or_undefined_Some number_or_undefined_None)

lemma getBreakpoints_800:
  "getBreakpoints (Some (Fin 800)) breakpoints Constrained =
     [Fin 800, Fin 1600]
     @ filter (\<lambda>c. js_lt c (Fin 1600))
         (case breakpoints of None \<Rightarrow> deviceSizes | Some b \<Rightarrow> b)"
  by (simp add: getBreakpoints_truthy fl_1600)

lemma deviceSizes_below_1600:
  "filter (\<lambda>c. js_lt c (Fin 1600)) deviceSizes = map Fin [640, 750, 828, 960, 1080, 1280]"
  by (simp add: deviceSizes_def)

text \<open>
  C1, as amended. With the layout \<open>constrained\<close> and a width \<open>W\<close> that is neither zero nor
  NaN, \<open>getBreakpoints\<close> returns \<open>W\<close>, \<open>2 * W\<close> and then the candidate widths (the device
  table when none are given) that are below \<open>2 * W\<close>; for the width 800 the list has 800
  and 1600, and every other element of it is below 1600. When the width is undefined,
  zero or NaN the list is empty.
\<close>

theorem getBreakpoints_constrained:
  "getBreakpoints None breakpoints Constrained = [] \<and>
   getBreakpoints (Some (Fin 0)) breakpoints Constrained = [] \<and>
   getBreakpoints (Some NaN) breakpoints Constrained = [] \<and>
   (W \<noteq> Fin 0 \<and> W \<noteq> NaN \<longrightarrow>
      getBreakpoints (Some W) breakpoints Constrained =
        [W, js_mul W (Fin 2)]
        @ filter (\<lambda>c. js_lt c (js_mul W (Fin 2)))
            (case breakpoints of None \<Rightarrow> deviceSizes | Some b \<Rightarrow> b)) \<and>
   Fin 800 \<in> set (getBreakpoints (Some (Fin 800)) breakpoints Constrained) \<and>
   Fin 1600 \<in> set (getBreakpoints (Some (Fin 800)) breakpoints Constrained) \<and>
   (\<forall>c \<in> set (getBreakpoints (Some (Fin 800)) breakpoints Constrained).
      c = Fin 800 \<or> c = Fin 1600 \<or> js_lt c (Fin 1600))"
  by (simp add: getBreakpoints_truthy getBreakpoints_falsy getBreakpoints_800)

theorem getBreakpoints_constrained_witness:
  "Fin 800 \<noteq> Fin 0 \<and> Fin 800 \<noteq> NaN \<and>
   getBreakpoints (Some (Fin 800)) None Constrained =
     map Fin [800, 1600, 640, 750, 828, 960, 1080, 1280]"
  using getBreakpoints_constrained [where W = "Fin 800" and breakpoints = None]
  by (simp add: fl_1600 deviceSizes_below_1600)

text \<open>
  C1 as it was stated fails for the width 0, which is defined: the list returned is
  empty, so 0 is not in it.
\<close>

theorem getBreakpoints_constrained_zero_counterexample:
  "Fin 0 \<notin> set (getBreakpoints (Some (Fin 0)) None Constrained)"
  by (simp add: getBreakpoints_falsy)

subsection \<open>getImagesOptimized: dimensions\<close>

lemma numeric_or_undefined_truthy:
  "numeric_or_undefined x = Some w \<Longrightarrow> w \<noteq> Fin 0 \<and> w \<noteq> NaN"
  by (simp add: numeric_or_undefined_def number_or_undefined_Some split: if_splits)

lemma coerced_dimensions_truthy:
  assumes "coerced_dimensions img props = (width, height)"
  shows "(\<forall>w. width = Some w \<longrightarrow> w \<noteq> Fin 0 \<and> w \<noteq> NaN) \<and>
         (\<forall>h. height = Some h \<longrightarrow> h \<noteq> Fin 0 \<and> h \<noteq> NaN)"
  using assms numeric_or_undefined_truthy
  by (auto simp add: coerced_dimensions_def Let_def)

lemma aspect_dimensions_width_only:
  "a \<noteq> Fin 0 \<Longrightarrow> a \<noteq> NaN \<Longrightarrow> w \<noteq> Fin 0 \<Longrightarrow> w \<noteq> NaN \<Longrightarrow>
   aspect_dimensions (Some w) None (Some a) layout img =
     ((Some w, Some (js_div w a), Some a), [])"
  by (simp add: aspect_dimensions_def number_or_undefined_Some number_or_undefined_None)

lemma aspect_dimensions_height_only:
  "a \<noteq> Fin 0 \<Longrightarrow> a \<noteq> NaN \<Longrightarrow> h \<noteq> Fin 0 \<Longrightarrow> h \<noteq> NaN \<Longrightarrow>
   aspect_dimensions None (Some h) (Some a) layout img =
     ((Some (js_mul h a), Some h, Some a), [])"
  by (simp add: aspect_dimensions_def number_or_undefined_Some number_or_undefined_None)

lemma aspect_dimensions_both:
  "aspectRatio = None \<or> aspectRatio = Some (Fin 0) \<or> aspectRatio = Some NaN \<Longrightarrow>
   w \<noteq> Fin 0 \<Longrightarrow> w \<noteq> NaN \<Longrightarrow> h \<noteq> Fin 0 \<Longrightarrow> h \<noteq> NaN \<Longrightarrow>
   aspect_dimensions (Some w) (Some h) aspectRatio layout img =
     ((Some w, Some h, Some (js_div w h)), [])"
  by (auto simp add: aspect_dimensions_def number_or_undefined_Some number_or_undefined_None)

text \<open>
  C3, as amended. Let \<open>width\<close> and \<open>height\<close> be the dimensions after the intrinsic ones
  are taken and both are coerced, and \<open>aspectRatio\<close> the parsed aspect ratio. If the aspect
  ratio is a number other than zero and NaN and only the width is there, the height becomes
  \<open>width / aspectRatio\<close>; if only the height is there, the width becomes
  \<open>height * aspectRatio\<close>; if the aspect ratio is undefined, zero or NaN and both
  dimensions are there, the aspect ratio becomes \<open>width / height\<close>.
\<close>

theorem dimensions_from_aspect_ratio:
  "coerced_dimensions img props = (width, height) \<and>
   parseAspectRatio (prop_aspectRatio props) = aspectRatio \<longrightarrow>
     (aspectRatio = Some a \<and> a \<noteq> Fin 0 \<and> a \<noteq> NaN \<and> width = Some w \<and> height = None \<longrightarrow>
        fst (resolved_dimensions img props) = (Some w, Some (js_div w a), Some a)) \<and>
     (aspectRatio = Some a \<and> a \<noteq> Fin 0 \<and> a \<noteq> NaN \<and> width = None \<and> height = Some h \<longrightarrow>
        fst (resolved_dimensions img props) = (Some (js_mul h a), Some h, Some a)) \<and>
     ((aspectRatio = None \<or> aspectRatio = Some (Fin 0) \<or> aspectRatio = Some NaN) \<and>
      width = Some w \<and> height = Some h \<longrightarrow>
        fst (resolved_dimensions img props) = (Some w, Some h, Some (js_div w h)))"
proof (intro impI, elim conjE)
  assume c: "coerced_dimensions img props = (width, height)"
    and p: "parseAspectRatio (prop_aspectRatio props) = aspectRatio"
  note t = coerced_dimensions_truthy [OF c]
  have r: "resolved_dimensions img props =
      aspect_dimensions width height aspectRatio (props_layout props) img"
    by (simp add: resolved_dimensions_def c p)
  show "(aspectRatio = Some a \<and> a \<noteq> Fin 0 \<and> a \<noteq> NaN \<and> width = Some w \<and> height = None \<longrightarrow>
        fst (resolved_dimensions img props) = (Some w, Some (js_div w a), Some a)) \<and>
     (aspectRatio = Some a \<and> a \<noteq> Fin 0 \<and> a \<noteq> NaN \<and> width = None \<and> height = Some h \<longrightarrow>
        fst (resolved_dimensions img props) = (Some (js_mul h a), Some h, Some a)) \<and>
     ((aspectRatio = None \<or> aspectRatio = Some (Fin 0) \<or> aspectRatio = Some NaN) \<and>
      width = Some w \<and> height = Some h \<longrightarrow>
        fst (resolved_dimensions img props) = (Some w, Some h, Some (js_div w h)))"
    using t
    by (auto simp add: r aspect_dimensions_width_only aspect_dimensions_height_only
        aspect_dimensions_both)
qed

lemma width_100_ratio_2:
  "coerced_dimensions (ImageUrl ''a.png'')
     (no_props\<lparr>prop_width := JNum (Fin 100), prop_aspectRatio := JNum (Fin 2)\<rparr>) =
     (Some (Fin 100), None) \<and>
   parseAspectRatio (prop_aspectRatio
     (no_props\<lparr>prop_width := JNum (Fin 100), prop_aspectRatio := JNum (Fin 2)\<rparr>)) =
     Some (Fin 2) \<and>
   js_div (Fin 100) (Fin 2) = Fin 50"
  by code_simp

lemma height_50_ratio_2:
  "coerced_dimensions (ImageUrl ''a.png'')
     (no_props\<lparr>prop_height := JNum (Fin 50), prop_aspectRatio := JNum (Fin 2)\<rparr>) =
     (None, Some (Fin 50)) \<and>
   parseAspectRatio (prop_aspectRatio
     (no_props\<lparr>prop_height := JNum (Fin 50), prop_aspectRatio := JNum (Fin 2)\<rparr>)) =
     Some (Fin 2) \<and>
   js_mul (Fin 50) (Fin 2) = Fin 100"
  by code_simp

lemma width_100_height_50:
  "coerced_dimensions (ImageUrl ''a.png'')
     (no_props\<lparr>prop_width := JNum (Fin 100), prop_height := JNum (Fin 50)\<rparr>) =
     (Some (Fin 100), Some (Fin 50)) \<and>
   parseAspectRatio (prop_aspectRatio
     (no_props\<lparr>prop_width := JNum (Fin 100), prop_height := JNum (Fin 50)\<rparr>)) = None \<and>
   js_div (Fin 100) (Fin 50) = Fin 2"
  by code_simp

theorem dimensions_from_aspect_ratio_witness:
  "coerced_dimensions (ImageUrl ''a.png'')
     (no_props\<lparr>prop_width := JNum (Fin 100), prop_aspectRatio := JNum (Fin 2)\<rparr>) =
     (Some (Fin 100), None) \<and>
   parseAspectRatio (prop_aspectRatio
     (no_props\<lparr>prop_width := JNum (Fin 100), prop_aspectRatio := JNum (Fin 2)\<rparr>)) =
     Some (Fin 2) \<and>
   fst (resolved_dimensions (ImageUrl ''a.png'')
     (no_props\<lparr>prop_width := JNum (Fin 100), prop_aspectRatio := JNum (Fin 2)\<rparr>)) =
     (Some (Fin 100), Some (Fin 50), Some (Fin 2)) \<and>
   fst (resolved_dimensions (ImageUrl ''a.png'')
     (no_props\<lparr>prop_height := JNum (Fin 50), prop_aspectRatio := JNum (Fin 2)\<rparr>)) =
     (Some (Fin 100), Some (Fin 50), Some (Fin 2)) \<and>
   fst (resolved_dimensions (ImageUrl ''a.png'')
     (no_props\<lparr>prop_width := JNum (Fin 100), prop_height := JNum (Fin 50)\<rparr>)) =
     (Some (Fin 100), Some (Fin 50), Some (Fin 2))"
  using
    dimensions_from_aspect_ratio [of "ImageUrl ''a.png''"
      "no_props\<lparr>prop_width := JNum (Fin 100), prop_aspectRatio := JNum (Fin 2)\<rparr>"
      "Some (Fin 100)" None "Some (Fin 2)" "Fin 2" "Fin 100"]
    dimensions_from_aspect_ratio [of "ImageUrl ''a.png''"
      "no_props\<lparr>prop_height := JNum (Fin 50), prop_aspectRatio := JNum (Fin 2)\<rparr>"
      None "Some (Fin 50)" "Some (Fin 2)" "Fin 2" _ "Fin 50"]
    dimensions_from_aspect_ratio [of "ImageUrl ''a.png''"
      "no_props\<lparr>prop_width := JNum (Fin 100), prop_height := JNum (Fin 50)\<rparr>"
      "Some (Fin 100)" "Some (Fin 50)" None _ "Fin 100" "Fin 50"]
    width_100_ratio_2 height_50_ratio_2 width_100_height_50
  by simp

text \<open>
  C3 as it was stated fails for the aspect ratio 0 with only the width 100 given: the aspect
  ratio is there, and the height stays undefined, where \<open>width / aspectRatio\<close> is
  \<open>Infinity\<close>.
\<close>

theorem zero_aspect_ratio_counterexample:
  "parseAspectRatio (JNum (Fin 0)) = Some (Fin 0) \<and>
   fst (resolved_dimensions (ImageUrl ''a.png'')
     (no_props\<lparr>prop_width := JNum (Fin 100), prop_aspectRatio := JNum (Fin 0)\<rparr>)) =
     (Some (Fin 100), None, Some (Fin 0)) \<and>
   js_div (Fin 100) (Fin 0) = PosInf"
  by code_simp

subsection \<open>getImagesOptimized: the result\<close>

lemma foldl_append_nonempty: "x \<noteq> [] \<Longrightarrow> foldl (\<lambda>acc y. acc @ g y) x rest \<noteq> []"
  by (induction rest arbitrary: x) auto

lemma srcset_of_empty: "srcset_of [] = []"
  by (simp add: srcset_of_def join_def)

lemma srcset_of_nonempty:
  assumes "entries \<noteq> []"
  shows "srcset_of entries \<noteq> []"
proof (cases entries)
  case Nil
  with assms show ?thesis by simp
next
  case (Cons e rest)
  obtain url width where e: "e = (url, width)" by (cases e)
  have "url @ '' '' @ number_to_string width @ ''w'' \<noteq> []" by simp
  then show ?thesis
    using foldl_append_nonempty [of "url @ '' '' @ number_to_string width @ ''w''"
        "\<lambda>y. '', '' @ y"]
    by (simp add: srcset_of_def join_def Cons e)
qed

lemma getImagesOptimized_result:
  assumes "resolved_dimensions img props = ((w, h, a), d)"
    and "transform_call img props transform = Inr entries"
  shows "getImagesOptimized img props transform =
     (d, Inr \<lparr>src = image_src img,
              attributes =
                [''width'' \<mapsto> of_opt_num w,
                 ''height'' \<mapsto> of_opt_num h,
                 ''srcset'' \<mapsto> (if entries = [] then JUndefined else JStr (srcset_of entries)),
                 ''sizes'' \<mapsto> of_opt_str (resolved_sizes img props),
                 ''style'' \<mapsto>
                   JStr (getStyle w h a (Some (props_layout props)) None None None
                         @ (case prop_style props of None \<Rightarrow> [] | Some s \<Rightarrow> s))]
                ++ prop_rest props\<rparr>)"
  using assms srcset_of_nonempty [of entries]
  by (cases "entries = []") (simp_all add: getImagesOptimized_def Let_def srcset_of_empty)

lemma getImagesOptimized_srcset:
  "transform_call img props transform = Inr entries \<Longrightarrow>
   \<exists>r. snd (getImagesOptimized img props transform) = Inr r \<and>
       attributes r ''srcset'' =
         (case prop_rest props ''srcset'' of
            Some v \<Rightarrow> Some v
          | None \<Rightarrow> Some (if entries = [] then JUndefined else JStr (srcset_of entries)))"
  using srcset_of_nonempty [of entries]
  by (cases "entries = []")
    (auto simp add: getImagesOptimized_def Let_def map_add_def srcset_of_empty
      split: prod.splits option.splits)

lemma default_transform_call: "transform_call img props default_transform = Inr []"
  by (simp add: transform_call_def default_transform_def split: prod.splits)

text \<open>
  C7, as amended. When the hints have no \<open>srcset\<close> property of their own and the transform
  returns the empty list, \<open>attributes.srcset\<close> is undefined; when it returns a non-empty
  list, \<open>srcset\<close> is its entries written \<open>{url} {width}w\<close> and joined by a comma and a
  space. (A \<open>srcset\<close> property of the hints is among the properties passed through, which
  are written last.)
\<close>

theorem srcset_attribute:
  "prop_rest props ''srcset'' = None \<and> transform_call img props transform = Inr entries \<longrightarrow>
     (case snd (getImagesOptimized img props transform) of
        Inl e \<Rightarrow> False
      | Inr r \<Rightarrow>
          get_prop (attributes r) ''srcset'' =
            (if entries = [] then JUndefined
             else JStr (join '', ''
                    (map (\<lambda>(url, width). url @ '' '' @ number_to_string width @ ''w'') entries))))"
  using getImagesOptimized_srcset [of img props transform entries]
  by (auto simp add: get_prop_def srcset_of_def)

theorem srcset_attribute_witness:
  "prop_rest no_props ''srcset'' = None \<and>
   transform_call (ImageUrl ''a.png'') no_props default_transform = Inr [] \<and>
   (case snd (getImagesOptimized (ImageUrl ''a.png'') no_props default_transform) of
      Inl e \<Rightarrow> False
    | Inr r \<Rightarrow> get_prop (attributes r) ''srcset'' = JUndefined)"
proof -
  have a: "prop_rest no_props ''srcset'' = None"
    by (simp add: no_props_def)
  have b: "transform_call (ImageUrl ''a.png'') no_props default_transform = Inr []"
    by (rule default_transform_call)
  show ?thesis
    using srcset_attribute [of no_props "ImageUrl ''a.png''" default_transform "[]"] a b
    by (simp split: sum.splits)
qed

lemma url_dimensions:
  "resolved_dimensions (ImageUrl ''a.png'')
     (no_props\<lparr>prop_rest := [''srcset'' \<mapsto> JStr ''b.png 1w'']\<rparr>) =
     ((None, None, None),
      [Diagnostic ''Either aspectRatio or both width and height must be set'',
       Diagnostic_image (ImageUrl ''a.png'')])"
  by code_simp

text \<open>
  C7 as it was stated fails for hints that have a \<open>srcset\<close> of their own: the transform
  returns the empty list and \<open>attributes.srcset\<close> is the caller's string.
\<close>

theorem srcset_passed_through_counterexample:
  "(case snd (getImagesOptimized (ImageUrl ''a.png'')
       (no_props\<lparr>prop_rest := [''srcset'' \<mapsto> JStr ''b.png 1w'']\<rparr>) default_transform) of
      Inl e \<Rightarrow> False
    | Inr r \<Rightarrow> get_prop (attributes r) ''srcset'' = JStr ''b.png 1w'')"
  unfolding getImagesOptimized_result [OF url_dimensions default_transform_call]
  by (simp add: get_prop_def no_props_def)

lemma photo_dimensions:
  "resolved_dimensions
     (ImageMeta \<lparr>img_src = ''photo.jpg'', img_width = Fin 640, img_height = Fin 427\<rparr>)
     no_props =
   ((Some (Fin 640), Some (Fin 426), Some (Fin (3382985635583471 / 2251799813685248))), [])"
  by code_simp

text \<open>
  C5 says that for an image given with its metadata and hints without width and height,
  the width and height of the result are the image's own. For an image of 640 by 427 the
  width is 640 and the height is 426: \<open>640 / 427\<close> rounds to a number \<open>r\<close> for which
  \<open>640 / r\<close> rounds to a number below 427, and \<open>computeHeight\<close> takes the floor.
\<close>

theorem intrinsic_height_640_427:
  "(case snd (getImagesOptimized
       (ImageMeta \<lparr>img_src = ''photo.jpg'', img_width = Fin 640, img_height = Fin 427\<rparr>)
       no_props default_transform) of
      Inl e \<Rightarrow> False
    | Inr r \<Rightarrow>
        get_prop (attributes r) ''width'' = JNum (Fin 640) \<and>
        get_prop (attributes r) ''height'' = JNum (Fin 426))"
  unfolding getImagesOptimized_result [OF photo_dimensions default_transform_call]
  by (simp add: get_prop_def of_opt_num_def no_props_def)

subsection \<open>Deduplicated and sorted breakpoints\<close>

lemma js_lt_trans: "js_lt a b \<Longrightarrow> js_lt b c \<Longrightarrow> js_lt a c"
  by (cases a; cases b; cases c) auto

lemma js_lt_cases: "a \<noteq> NaN \<Longrightarrow> b \<noteq> NaN \<Longrightarrow> js_lt a b \<or> a = b \<or> js_lt b a"
  by (cases a; cases b) auto

lemma js_lt_irrefl: "\<not> js_lt a a"
  by (cases a) auto

lemma set_values_aux:
  "distinct acc \<Longrightarrow>
   distinct (foldl (\<lambda>acc x. if x \<in> set acc then acc else acc @ [x]) acc xs) \<and>
   set (foldl (\<lambda>acc x. if x \<in> set acc then acc else acc @ [x]) acc xs) = set acc \<union> set xs"
  by (induction xs arbitrary: acc) auto

lemma distinct_set_values: "distinct (set_values xs)"
  using set_values_aux [of "[]" xs] by (simp add: set_values_def)

lemma set_set_values: "set (set_values xs) = set xs"
  using set_values_aux [of "[]" xs] by (simp add: set_values_def)

lemma set_sort_insert: "set (sort_insert gt x ys) = insert x (set ys)"
  by (induction ys) auto

lemma set_array_sort: "set (array_sort gt xs) = set xs"
  by (induction xs) (simp_all add: array_sort_def set_sort_insert)

lemma distinct_sort_insert: "distinct ys \<Longrightarrow> x \<notin> set ys \<Longrightarrow> distinct (sort_insert gt x ys)"
  by (induction ys) (auto simp add: set_sort_insert)

lemma distinct_array_sort: "distinct xs \<Longrightarrow> distinct (array_sort gt xs)"
proof (induction xs)
  case Nil
  then show ?case by (simp add: array_sort_def)
next
  case (Cons x xs)
  then have "distinct (array_sort gt xs)" and "x \<notin> set (array_sort gt xs)"
    by (simp_all add: set_array_sort)
  then have "distinct (sort_insert gt x (array_sort gt xs))"
    by (rule distinct_sort_insert)
  then show ?case by (simp add: array_sort_def)
qed

lemma sorted_sort_insert:
  "sorted_wrt js_lt ys \<Longrightarrow> x \<notin> set ys \<Longrightarrow> x \<noteq> NaN \<Longrightarrow> NaN \<notin> set ys \<Longrightarrow>
   sorted_wrt js_lt (sort_insert minus_positive x ys)"
proof (induction ys)
  case Nil
  then show ?case by simp
next
  case (Cons y ys)
  show ?case
  proof (cases "js_lt y x")
    case True
    with Cons show ?thesis
      by (auto simp add: minus_positive_def set_sort_insert)
  next
    case False
    with Cons.prems js_lt_cases [of x y] have xy: "js_lt x y" by auto
    with Cons.prems have "\<forall>z \<in> set (y # ys). js_lt x z"
      by (auto intro: js_lt_trans)
    with Cons.prems False show ?thesis
      by (simp add: minus_positive_def)
  qed
qed

lemma sorted_array_sort:
  "distinct xs \<Longrightarrow> NaN \<notin> set xs \<Longrightarrow> sorted_wrt js_lt (array_sort minus_positive xs)"
proof (induction xs)
  case Nil
  then show ?case by (simp add: array_sort_def)
next
  case (Cons x xs)
  then have "sorted_wrt js_lt (sort_insert minus_positive x (array_sort minus_positive xs))"
    by (intro sorted_sort_insert) (auto simp add: set_array_sort)
  then show ?case by (simp add: array_sort_def)
qed

lemma js_mul_2_not_NaN: "w \<noteq> NaN \<Longrightarrow> js_mul w (Fin 2) \<noteq> NaN"
  by (cases w) (simp_all add: fl_not_NaN sign_of_def inf_of_sign_def)

lemma getBreakpoints_not_NaN:
  assumes "NaN \<notin> set ws"
  shows "NaN \<notin> set (getBreakpoints width (Some ws) layout)"
proof (cases "width = None \<or> width = Some (Fin 0) \<or> width = Some NaN")
  case True
  with assms show ?thesis
    by (cases layout) (auto simp add: getBreakpoints_falsy, auto simp add: getBreakpoints_def)
next
  case False
  then obtain W where "width = Some W" "W \<noteq> Fin 0" "W \<noteq> NaN" by auto
  with assms js_mul_2_not_NaN [of W] show ?thesis
    by (auto simp add: getBreakpoints_truthy)
qed

lemma resolved_breakpoints_eq:
  "resolved_breakpoints img props =
     array_sort minus_positive (set_values
       (getBreakpoints (fst (fst (resolved_dimensions img props)))
          (Some (props_widths props)) (props_layout props)))"
  by (simp add: resolved_breakpoints_def split: prod.splits)

lemma candidates_sorted:
  "array_sort minus_positive (set_values (map Fin [200, 100, 200, 300])) = map Fin [100, 200, 300]"
  by code_simp

text \<open>
  C6, as amended. The breakpoints passed to the transform are those of \<open>getBreakpoints\<close>
  without repetitions, whatever the input; when no candidate width is NaN they are in
  strictly ascending order. For the layouts \<open>fullWidth\<close>, \<open>cover\<close>, \<open>responsive\<close> and
  \<open>contained\<close>, \<open>getBreakpoints\<close> returns the candidate widths as they are, or the device
  table when there are none; the candidates 200, 100, 200, 300 with the layout \<open>fullWidth\<close>
  give 100, 200, 300.
\<close>

theorem breakpoints_sorted:
  "(NaN \<notin> set (props_widths props) \<longrightarrow> sorted_wrt js_lt (resolved_breakpoints img props)) \<and>
   distinct (resolved_breakpoints img props) \<and>
   set (resolved_breakpoints img props) =
     set (getBreakpoints (fst (fst (resolved_dimensions img props)))
            (Some (props_widths props)) (props_layout props)) \<and>
   transform_call img props transform =
     transform img (resolved_breakpoints img props)
       (number_or_undefined (fst (fst (resolved_dimensions img props))))
       (number_or_undefined (fst (snd (fst (resolved_dimensions img props))))) \<and>
   (layout = FullWidth \<or> layout = Cover \<or> layout = Responsive \<or> layout = Contained \<longrightarrow>
      getBreakpoints width breakpoints layout =
        (case breakpoints of None \<Rightarrow> deviceSizes | Some b \<Rightarrow> b)) \<and>
   resolved_breakpoints img
     (no_props\<lparr>prop_layout := Some FullWidth,
               prop_widths := Some (map Fin [200, 100, 200, 300])\<rparr>) =
     map Fin [100, 200, 300]"
proof (intro conjI impI)
  assume "NaN \<notin> set (props_widths props)"
  then show "sorted_wrt js_lt (resolved_breakpoints img props)"
    by (simp add: resolved_breakpoints_eq sorted_array_sort distinct_set_values set_set_values
        getBreakpoints_not_NaN)
next
  show "distinct (resolved_breakpoints img props)"
    by (simp add: resolved_breakpoints_eq distinct_array_sort distinct_set_values)
next
  show "set (resolved_breakpoints img props) =
     set (getBreakpoints (fst (fst (resolved_dimensions img props)))
            (Some (props_widths props)) (props_layout props))"
    by (simp add: resolved_breakpoints_eq set_array_sort set_set_values)
next
  show "transform_call img props transform =
     transform img (resolved_breakpoints img props)
       (number_or_undefined (fst (fst (resolved_dimensions img props))))
       (number_or_undefined (fst (snd (fst (resolved_dimensions img props)))))"
    by (simp add: transform_call_def split: prod.splits)
next
  assume "layout = FullWidth \<or> layout = Cover \<or> layout = Responsive \<or> layout = Contained"
  then show "getBreakpoints width breakpoints layout =
        (case breakpoints of None \<Rightarrow> deviceSizes | Some b \<Rightarrow> b)"
    by (simp add: getBreakpoints_def)
next
  have "getBreakpoints w (Some (map Fin [200, 100, 200, 300])) FullWidth = map Fin [200, 100, 200, 300]" for w
    by (simp add: getBreakpoints_def)
  then show "resolved_breakpoints img
     (no_props\<lparr>prop_layout := Some FullWidth,
               prop_widths := Some (map Fin [200, 100, 200, 300])\<rparr>) =
     map Fin [100, 200, 300]"
    using candidates_sorted
    by (simp add: resolved_breakpoints_eq props_widths_def props_layout_def)
qed

lemma breakpoints_of_800: "resolved_breakpoints (ImageUrl ''a.png'') (no_props\<lparr>prop_width := JNum (Fin 800),
               prop_widths := Some (map Fin [1000, 400, 1600, 400, 2000])\<rparr>) = map Fin [400, 800, 1000, 1600]"
  by code_simp

theorem breakpoints_sorted_witness:
  "NaN \<notin> set (props_widths (no_props\<lparr>prop_width := JNum (Fin 800),
               prop_widths := Some (map Fin [1000, 400, 1600, 400, 2000])\<rparr>)) \<and>
   sorted_wrt js_lt (resolved_breakpoints (ImageUrl ''a.png'')
     (no_props\<lparr>prop_width := JNum (Fin 800),
               prop_widths := Some (map Fin [1000, 400, 1600, 400, 2000])\<rparr>)) \<and>
   resolved_breakpoints (ImageUrl ''a.png'')
     (no_props\<lparr>prop_width := JNum (Fin 800),
               prop_widths := Some (map Fin [1000, 400, 1600, 400, 2000])\<rparr>) =
     map Fin [400, 800, 1000, 1600]"
proof -
  let ?props = "no_props\<lparr>prop_width := JNum (Fin 800),
               prop_widths := Some (map Fin [1000, 400, 1600, 400, 2000])\<rparr>"
  have n: "NaN \<notin> set (props_widths ?props)"
    by (simp add: props_widths_def no_props_def)
  have s: "sorted_wrt js_lt (resolved_breakpoints (ImageUrl ''a.png'') ?props)"
    using breakpoints_sorted [of ?props "ImageUrl ''a.png''"] n by blast
  from n s breakpoints_of_800 show ?thesis by blast
qed

text \<open>
  C6 as it was stated fails for the candidate widths 3, NaN, 1 with the layout
  \<open>fullWidth\<close>: every difference with NaN is NaN, which the sort reads as zero, so that
  3 stays before 1.
\<close>

theorem breakpoints_with_NaN_counterexample:
  "resolved_breakpoints (ImageUrl ''a.png'')
     (no_props\<lparr>prop_layout := Some FullWidth, prop_widths := Some [Fin 3, NaN, Fin 1]\<rparr>) =
     [Fin 3, NaN, Fin 1] \<and>
   js_lt (Fin 1) (Fin 3)"
  by code_simp

subsection \<open>getRelatedPosts\<close>

lemma postsWithScores_aux:
  "foldl (\<lambda>acc iteratedPost.
            if post_slug iteratedPost = post_slug originalPost then acc
            else acc @ [(iteratedPost, post_score originalPost iteratedPost)]) acc allPosts =
   acc @ map (\<lambda>p. (p, post_score originalPost p))
           (filter (\<lambda>p. post_slug p \<noteq> post_slug originalPost) allPosts)"
  by (induction allPosts arbitrary: acc) auto

lemma postsWithScores_eq:
  "postsWithScores allPosts originalPost =
     map (\<lambda>p. (p, post_score originalPost p))
       (filter (\<lambda>p. post_slug p \<noteq> post_slug originalPost) allPosts)"
  by (simp add: postsWithScores_def postsWithScores_aux)

lemma count_tags_aux:
  "foldl (\<lambda>score tag. if slug tag \<in> S then score + 1 else score) (n :: int) ts =
     n + int (length (filter (\<lambda>t. slug t \<in> S) ts))"
  by (induction ts arbitrary: n) auto

lemma originalTagsSet_image:
  "originalTagsSet originalPost =
     slug ` set (case tags originalPost of None \<Rightarrow> [] | Some ts \<Rightarrow> ts)"
  by (cases "tags originalPost") (simp_all add: originalTagsSet_def)

lemma same_category_iff:
  "same_category originalPost p =
     (\<exists>c c'. category p = Some c \<and> category originalPost = Some c' \<and> slug c = slug c')"
  by (cases "category p"; cases "category originalPost") (simp_all add: same_category_def)

lemma post_score_claimed: "post_score originalPost p = claimed_score originalPost p"
proof (cases "tags p")
  case None
  then show ?thesis
    by (simp add: post_score_def claimed_score_def same_category_iff SCORE_POSTS_INCREMENT_def)
next
  case (Some ts)
  then show ?thesis
    unfolding post_score_def claimed_score_def Let_def same_category_iff
      SCORE_POSTS_INCREMENT_def originalTagsSet_image [symmetric]
    by (simp add: count_tags_aux)
qed

lemma select_posts_take:
  "\<exists>n. select_posts maxResults scored selectedPosts postsIterator =
     selectedPosts @ map fst (take n (drop postsIterator scored))"
proof (induction maxResults scored selectedPosts postsIterator rule: select_posts.induct)
  case (1 maxResults scored selectedPosts postsIterator)
  show ?case
  proof (cases "js_lt (Fin (of_nat (length selectedPosts))) maxResults \<and>
      postsIterator < length scored")
    case True
    from "1.IH" [OF True] obtain n where
      n: "select_posts maxResults scored (selectedPosts @ [fst (scored ! postsIterator)])
            (Suc postsIterator) =
          (selectedPosts @ [fst (scored ! postsIterator)])
          @ map fst (take n (drop (Suc postsIterator) scored))"
      by blast
    from True have d: "drop postsIterator scored =
        scored ! postsIterator # drop (Suc postsIterator) scored"
      by (simp add: Cons_nth_drop_Suc)
    have "select_posts maxResults scored selectedPosts postsIterator =
        select_posts maxResults scored (selectedPosts @ [fst (scored ! postsIterator)])
          (Suc postsIterator)"
      using True by (subst select_posts.simps) simp
    also have "\<dots> = selectedPosts @ map fst (take (Suc n) (drop postsIterator scored))"
      by (simp add: n d)
    finally show ?thesis by blast
  next
    case False
    have "select_posts maxResults scored selectedPosts postsIterator = selectedPosts"
      using False by (subst select_posts.simps) auto
    then have "select_posts maxResults scored selectedPosts postsIterator =
        selectedPosts @ map fst (take 0 (drop postsIterator scored))"
      by simp
    then show ?thesis by blast
  qed
qed

lemma select_posts_length:
  "0 \<le> q \<Longrightarrow> int (length selectedPosts) \<le> \<lceil>q\<rceil> \<Longrightarrow>
   int (length (select_posts (Fin q) scored selectedPosts postsIterator)) \<le> \<lceil>q\<rceil>"
proof (induction "Fin q" scored selectedPosts postsIterator rule: select_posts.induct)
  case (1 scored selectedPosts postsIterator)
  show ?case
  proof (cases "js_lt (Fin (of_nat (length selectedPosts))) (Fin q) \<and>
      postsIterator < length scored")
    case True
    then have "of_int (int (length selectedPosts)) < q" by simp
    then have "int (length selectedPosts) < \<lceil>q\<rceil>" by (simp add: less_ceiling_iff)
    then have "int (length (selectedPosts @ [fst (scored ! postsIterator)])) \<le> \<lceil>q\<rceil>"
      by simp
    from "1.hyps" [OF True "1.prems"(1) this] True show ?thesis
      by (subst select_posts.simps) simp
  next
    case False
    have "select_posts (Fin q) scored selectedPosts postsIterator = selectedPosts"
      using False by (subst select_posts.simps) auto
    with "1.prems" show ?thesis by simp
  qed
qed

lemma select_posts_none:
  "maxResults = NaN \<or> maxResults = NegInf \<or> (\<exists>q. maxResults = Fin q \<and> q \<le> 0) \<Longrightarrow>
   select_posts maxResults scored [] 0 = []"
  by (subst select_posts.simps) auto


lemma getRelatedPosts_take:
  "\<exists>n. getRelatedPosts allPosts originalPost maxResults =
     map fst (take n
       (array_sort (\<lambda>a b. 0 < snd b - snd a) (postsWithScores allPosts originalPost)))"
  using select_posts_take [of maxResults
      "array_sort (\<lambda>a b. 0 < snd b - snd a) (postsWithScores allPosts originalPost)" "[]" 0]
  by (simp add: getRelatedPosts_def)

lemma getRelatedPosts_length:
  "0 \<le> q \<Longrightarrow> int (length (getRelatedPosts allPosts originalPost (Fin q))) \<le> \<lceil>q\<rceil>"
  using select_posts_length [of q "[]"] by (simp add: getRelatedPosts_def)

lemma sorted_sort_insert_key:
  assumes "\<And>a b. gt a b = (key a < (key b :: int))"
  shows "sorted_wrt (\<lambda>a b. key b \<le> key a) ys \<Longrightarrow>
         sorted_wrt (\<lambda>a b. key b \<le> key a) (sort_insert gt x ys)"
proof (induction ys)
  case Nil
  then show ?case by simp
next
  case (Cons y ys)
  then show ?case
    by (auto simp add: set_sort_insert assms)
qed

lemma sorted_array_sort_key:
  assumes "\<And>a b. gt a b = (key a < (key b :: int))"
  shows "sorted_wrt (\<lambda>a b. key b \<le> key a) (array_sort gt xs)"
proof (induction xs)
  case Nil
  then show ?case by (simp add: array_sort_def)
next
  case (Cons x xs)
  then have "sorted_wrt (\<lambda>a b. key b \<le> key a) (sort_insert gt x (array_sort gt xs))"
    by (rule sorted_sort_insert_key [OF assms])
  then show ?case by (simp add: array_sort_def)
qed

lemma sorted_wrt_cong_set:
  "sorted_wrt P xs \<Longrightarrow> (\<And>x y. x \<in> set xs \<Longrightarrow> y \<in> set xs \<Longrightarrow> P x y \<Longrightarrow> Q x y) \<Longrightarrow>
   sorted_wrt Q xs"
  by (induction xs) auto

lemma scored_not_original:
  "e \<in> set (array_sort (\<lambda>a b. 0 < snd b - snd a) (postsWithScores allPosts originalPost)) \<Longrightarrow>
   fst e \<in> set (filter (\<lambda>p. post_slug p \<noteq> post_slug originalPost) allPosts)"
  by (auto simp add: set_array_sort postsWithScores_eq)

lemma scored_claimed_score:
  "e \<in> set (array_sort (\<lambda>a b. 0 < snd b - snd a) (postsWithScores allPosts originalPost)) \<Longrightarrow>
   snd e = claimed_score originalPost (fst e)"
  by (auto simp add: set_array_sort postsWithScores_eq post_score_claimed)

lemma scored_descending:
  "sorted_wrt (\<lambda>a b. snd b \<le> snd a) (array_sort (\<lambda>a b. (0::int) < snd b - snd a) xs)"
  by (rule sorted_array_sort_key) auto

lemma scored_claimed_descending:
  "sorted_wrt (\<lambda>a b. claimed_score originalPost (fst b) \<le> claimed_score originalPost (fst a))
     (array_sort (\<lambda>a b. 0 < snd b - snd a) (postsWithScores allPosts originalPost))"
proof (rule sorted_wrt_cong_set [OF scored_descending])
  fix x y
  assume "x \<in> set (array_sort (\<lambda>a b. 0 < snd b - snd a) (postsWithScores allPosts originalPost))"
    and "y \<in> set (array_sort (\<lambda>a b. 0 < snd b - snd a) (postsWithScores allPosts originalPost))"
    and "snd y \<le> snd x"
  then show "claimed_score originalPost (fst y) \<le> claimed_score originalPost (fst x)"
    using scored_claimed_score [of x allPosts originalPost]
      scored_claimed_score [of y allPosts originalPost] by simp
qed

text \<open>
  C10, as amended. For a limit \<open>maxResults\<close> that is a natural number, \<open>getRelatedPosts\<close>
  returns at most \<open>maxResults\<close> posts; for any limit that is not negative, at most as many
  as the limit rounded up. Whatever the limit, none of the posts returned has the slug of
  the original post, all are posts of the collection, and they are in the order of
  non-increasing score, the score being 5 for an equal category slug plus one for each tag
  whose slug is among the slugs of the original post's tags.
\<close>

theorem related_posts:
  "length (getRelatedPosts allPosts originalPost (Fin (of_nat k))) \<le> k \<and>
   (0 \<le> q \<longrightarrow> int (length (getRelatedPosts allPosts originalPost (Fin q))) \<le> \<lceil>q\<rceil>) \<and>
   (\<forall>p \<in> set (getRelatedPosts allPosts originalPost maxResults).
      post_slug p \<noteq> post_slug originalPost \<and> p \<in> set allPosts) \<and>
   sorted_wrt (\<lambda>p q. claimed_score originalPost q \<le> claimed_score originalPost p)
     (getRelatedPosts allPosts originalPost maxResults)"
proof (intro conjI impI ballI)
  show "length (getRelatedPosts allPosts originalPost (Fin (of_nat k))) \<le> k"
    using getRelatedPosts_length [of "of_nat k" allPosts originalPost] by simp
next
  assume "0 \<le> q"
  then show "int (length (getRelatedPosts allPosts originalPost (Fin q))) \<le> \<lceil>q\<rceil>"
    by (rule getRelatedPosts_length)
next
  fix p
  assume p: "p \<in> set (getRelatedPosts allPosts originalPost maxResults)"
  obtain n where n: "getRelatedPosts allPosts originalPost maxResults =
     map fst (take n
       (array_sort (\<lambda>a b. 0 < snd b - snd a) (postsWithScores allPosts originalPost)))"
    using getRelatedPosts_take by blast
  from p obtain e where "e \<in> set (take n
       (array_sort (\<lambda>a b. 0 < snd b - snd a) (postsWithScores allPosts originalPost)))"
    and e: "p = fst e"
    unfolding n set_map by blast
  then have "e \<in> set (array_sort (\<lambda>a b. 0 < snd b - snd a)
      (postsWithScores allPosts originalPost))"
    by (blast dest: in_set_takeD)
  then have f: "p \<in> set (filter (\<lambda>p. post_slug p \<noteq> post_slug originalPost) allPosts)"
    unfolding e by (rule scored_not_original)
  from f show "post_slug p \<noteq> post_slug originalPost" by simp
  from f show "p \<in> set allPosts" by simp
next
  obtain n where n: "getRelatedPosts allPosts originalPost maxResults =
     map fst (take n
       (array_sort (\<lambda>a b. 0 < snd b - snd a) (postsWithScores allPosts originalPost)))"
    using getRelatedPosts_take by blast
  show "sorted_wrt (\<lambda>p q. claimed_score originalPost q \<le> claimed_score originalPost p)
     (getRelatedPosts allPosts originalPost maxResults)"
    unfolding n sorted_wrt_map
    by (rule sorted_wrt_take) (rule scored_claimed_descending)
qed

lemma related_example:
  "map post_id (getRelatedPosts
     [example_post ''a'' (Some ''x'') [''t''], example_post ''b'' None [''t''],
      example_post ''c'' (Some ''x'') [], example_post ''d'' (Some ''x'') [''u'']]
     (example_post ''a'' (Some ''x'') [''t'', ''u'']) (Fin 2)) = [''d'', ''c'']"
  by code_simp

theorem related_posts_witness:
  "(0::rat) \<le> 2 \<and>
   int (length (getRelatedPosts
     [example_post ''a'' (Some ''x'') [''t''], example_post ''b'' None [''t''],
      example_post ''c'' (Some ''x'') [], example_post ''d'' (Some ''x'') [''u'']]
     (example_post ''a'' (Some ''x'') [''t'', ''u'']) (Fin 2))) \<le> \<lceil>2 :: rat\<rceil> \<and>
   map post_id (getRelatedPosts
     [example_post ''a'' (Some ''x'') [''t''], example_post ''b'' None [''t''],
      example_post ''c'' (Some ''x'') [], example_post ''d'' (Some ''x'') [''u'']]
     (example_post ''a'' (Some ''x'') [''t'', ''u'']) (Fin 2)) = [''d'', ''c'']"
proof -
  have a: "(0::rat) \<le> 2" by simp
  have "int (length (getRelatedPosts
     [example_post ''a'' (Some ''x'') [''t''], example_post ''b'' None [''t''],
      example_post ''c'' (Some ''x'') [], example_post ''d'' (Some ''x'') [''u'']]
     (example_post ''a'' (Some ''x'') [''t'', ''u'']) (Fin 2))) \<le> \<lceil>2 :: rat\<rceil>"
    using related_posts [where q = 2, THEN conjunct2, THEN conjunct1, rule_format, OF a] .
  with a related_example show ?thesis
    by (intro conjI)
qed

text \<open>
  C10 as it was stated fails for the limit 1.5: the loop goes on while the number of
  selected posts is below the limit, so it selects two posts.
\<close>

theorem related_posts_fraction_counterexample:
  "map post_id (getRelatedPosts
     [example_post ''a'' (Some ''x'') [''t''], example_post ''b'' None [''t''],
      example_post ''c'' (Some ''x'') [], example_post ''d'' (Some ''x'') [''u'']]
     (example_post ''a'' (Some ''x'') [''t'', ''u'']) (Fin (3 / 2))) = [''d'', ''c''] \<and>
   (3 / 2 :: rat) < 2"
  by code_simp
subsection \<open>parseAspectRatio\<close>

lemma digit_not_space: "is_digit c \<Longrightarrow> \<not> is_space c"
  by (auto simp add: is_digit_def is_space_def)

lemma digit_not_special:
  "is_digit c \<Longrightarrow>
   c \<noteq> CHR ''x'' \<and> c \<noteq> CHR ''X'' \<and> c \<noteq> CHR ''o'' \<and> c \<noteq> CHR ''O'' \<and>
   c \<noteq> CHR ''b'' \<and> c \<noteq> CHR ''B'' \<and> c \<noteq> CHR ''+'' \<and> c \<noteq> CHR ''-'' \<and>
   c \<noteq> CHR ''I'' \<and> c \<noteq> CHR ''.'' \<and> c \<noteq> CHR ''/'' \<and> c \<noteq> CHR '':''"
  by (auto simp add: is_digit_def)

lemma space_not_digit: "is_space c \<Longrightarrow> \<not> is_digit c"
  using digit_not_space by blast

lemma separator_not_digit: "c = CHR ''/'' \<or> c = CHR '':'' \<Longrightarrow> \<not> is_digit c \<and> \<not> is_space c"
  by (auto simp add: is_digit_def is_space_def)

lemma takeWhile_all: "\<forall>c \<in> set xs. P c \<Longrightarrow> takeWhile P xs = xs"
  by (induction xs) auto

lemma dropWhile_all: "\<forall>c \<in> set xs. P c \<Longrightarrow> dropWhile P xs = []"
  by (induction xs) auto

lemma takeWhile_prefix:
  "\<forall>c \<in> set xs. P c \<Longrightarrow> \<not> P y \<Longrightarrow> takeWhile P (xs @ y # ys) = xs"
  by (induction xs) auto

lemma dropWhile_prefix:
  "\<forall>c \<in> set xs. P c \<Longrightarrow> \<not> P y \<Longrightarrow> dropWhile P (xs @ y # ys) = y # ys"
  by (induction xs) auto

lemma trim_digits:
  assumes "ds \<noteq> []" and "\<forall>c \<in> set ds. is_digit c"
  shows "trim ds = ds"
proof -
  obtain c cs where ds: "ds = c # cs" using assms(1) by (cases ds) auto
  with assms(2) have "\<not> is_space c" by (simp add: digit_not_space)
  then have a: "dropWhile is_space ds = ds" by (simp add: ds)
  obtain b bs where r: "rev ds = b # bs" using assms(1) by (cases "rev ds") auto
  then have "b \<in> set ds" by (metis list.set_intros(1) set_rev)
  with assms(2) have "\<not> is_space b" by (simp add: digit_not_space)
  then have "dropWhile is_space (rev ds) = rev ds" by (simp add: r)
  with a show ?thesis by (simp add: trim_def)
qed

lemma starts_with_Cons2:
  "starts_with (c # cs) [p, q] = (c = p \<and> (\<exists>d ds. cs = d # ds \<and> d = q))"
  by (cases cs) auto

lemma digits_no_prefix:
  assumes "\<forall>c \<in> set ds. is_digit c"
  shows "\<not> starts_with ds ''0x'' \<and> \<not> starts_with ds ''0X'' \<and> \<not> starts_with ds ''0o'' \<and>
         \<not> starts_with ds ''0O'' \<and> \<not> starts_with ds ''0b'' \<and> \<not> starts_with ds ''0B'' \<and>
         \<not> starts_with ds ''Infinity''"
proof (cases ds)
  case Nil
  then show ?thesis by simp
next
  case (Cons c cs)
  show ?thesis
  proof (cases cs)
    case Nil
    with Cons assms digit_not_special [of c] show ?thesis by auto
  next
    case (Cons d ds')
    with \<open>ds = c # cs\<close> assms digit_not_special [of c] digit_not_special [of d] show ?thesis
      by auto
  qed
qed

lemma parse_unsigned_digits:
  assumes "ds \<noteq> []" and "\<forall>c \<in> set ds. is_digit c"
  shows "parse_unsigned ds = Some (Fin (of_nat (digits_value 10 ds)), [])"
  using assms digits_no_prefix [OF assms(2)]
  by (simp add: parse_unsigned_def Let_def takeWhile_all dropWhile_all parse_exponent_def)

lemma string_to_number_digits:
  assumes "ds \<noteq> []" and "\<forall>c \<in> set ds. is_digit c"
  shows "string_to_number ds = fl (of_nat (digits_value 10 ds))"
proof -
  obtain c cs where ds: "ds = c # cs" using assms(1) by (cases ds) auto
  with assms(2) digit_not_special [of c] have c: "c \<noteq> CHR ''+''" "c \<noteq> CHR ''-''" by auto
  have "parse_signed ds = parse_unsigned ds"
    using c by (simp add: parse_signed_def ds)
  then show ?thesis
    using assms digits_no_prefix [OF assms(2)]
    by (simp add: string_to_number_def trim_digits parse_unsigned_digits round_num_def)
qed




lemma ratio_match_here_exact:
  assumes n: "n \<noteq> []" "\<forall>c \<in> set n. is_digit c"
    and d: "d \<noteq> []" "\<forall>c \<in> set d. is_digit c"
    and ws: "\<forall>c \<in> set ws1. is_space c" "\<forall>c \<in> set ws2. is_space c"
    and sep: "sep = CHR ''/'' \<or> sep = CHR '':''"
  shows "ratio_match_here (n @ ws1 @ sep # ws2 @ d) = Some (n, d)"
proof -
  have ns: "\<not> is_digit sep" "\<not> is_space sep"
    using sep separator_not_digit by auto
  obtain x xs where x: "ws1 @ sep # ws2 @ d = x # xs" and nx: "\<not> is_digit x"
  proof (cases ws1)
    case Nil
    with ns that show ?thesis by simp
  next
    case (Cons w ws)
    with ws(1) have "\<not> is_digit w" by (simp add: space_not_digit)
    with Cons that show ?thesis by simp
  qed
  have t1: "takeWhile is_digit (n @ ws1 @ sep # ws2 @ d) = n"
    unfolding x using n(2) nx by (rule takeWhile_prefix)
  have d1: "dropWhile is_digit (n @ ws1 @ sep # ws2 @ d) = ws1 @ sep # ws2 @ d"
    unfolding x using n(2) nx by (rule dropWhile_prefix)
  have d2: "dropWhile is_space (ws1 @ sep # ws2 @ d) = sep # ws2 @ d"
    using ws(1) ns(2) by (rule dropWhile_prefix)
  obtain y ys where y: "d = y # ys" using d(1) by (cases d) auto
  with d(2) have ny: "\<not> is_space y" by (simp add: digit_not_space)
  have d3: "dropWhile is_space (ws2 @ d) = d"
    unfolding y using ws(2) ny by (rule dropWhile_prefix)
  have t2: "takeWhile is_digit d = d"
    using d(2) by (rule takeWhile_all)
  show ?thesis
    unfolding ratio_match_here_def Let_def t1 d1 d2
    using n(1) d(1) sep by (simp add: d3 t2)
qed

lemma ratio_match_exact:
  assumes n: "n \<noteq> []" "\<forall>c \<in> set n. is_digit c"
    and d: "d \<noteq> []" "\<forall>c \<in> set d. is_digit c"
    and ws: "\<forall>c \<in> set ws1. is_space c" "\<forall>c \<in> set ws2. is_space c"
    and sep: "sep = CHR ''/'' \<or> sep = CHR '':''"
  shows "ratio_match (n @ ws1 @ sep # ws2 @ d) = Some (n, d)"
proof -
  obtain c cs where c: "n @ ws1 @ sep # ws2 @ d = c # cs"
    using n(1) by (cases n) auto
  have "ratio_match_here (c # cs) = Some (n, d)"
    using ratio_match_here_exact [OF assms] by (simp only: c)
  then have "ratio_match (c # cs) = Some (n, d)"
    by simp
  then show ?thesis by (simp only: c)
qed

lemma parseAspectRatio_exact:
  assumes n: "n \<noteq> []" "\<forall>c \<in> set n. is_digit c"
    and d: "d \<noteq> []" "\<forall>c \<in> set d. is_digit c"
    and ws: "\<forall>c \<in> set ws1. is_space c" "\<forall>c \<in> set ws2. is_space c"
    and sep: "sep = CHR ''/'' \<or> sep = CHR '':''"
  shows "parseAspectRatio (JStr (n @ ws1 @ sep # ws2 @ d)) =
       (if fl (of_nat (digits_value 10 d)) = Fin 0 then None
        else Some (js_div (fl (of_nat (digits_value 10 n))) (fl (of_nat (digits_value 10 d)))))"
  unfolding parseAspectRatio_def jsval.case ratio_match_exact [OF assms] option.case prod.case
    Let_def string_to_number_digits [OF n] string_to_number_digits [OF d]
  by (simp add: truthy_num_def fl_not_NaN)







subsection \<open>The layout \<open>fixed\<close>\<close>

lemma foldl_join: "foldl (\<lambda>acc y. acc @ sep @ y) x rest = x @ concat (map (\<lambda>y. sep @ y) rest)"
  by (induction rest arbitrary: x) auto

lemma join_Cons: "join sep (x # rest) = x @ concat (map (\<lambda>y. sep @ y) rest)"
  by (simp add: join_def foldl_join)

lemma join_middle:
  "\<exists>p q. join sep (xs @ (y # ys) @ zs) = p @ join sep (y # ys) @ q"
proof (cases xs)
  case Nil
  have "join sep (xs @ (y # ys) @ zs) = [] @ join sep (y # ys) @ concat (map (\<lambda>y. sep @ y) zs)"
    by (simp add: Nil join_Cons)
  then show ?thesis by blast
next
  case (Cons x xs')
  have "join sep (xs @ (y # ys) @ zs) =
      (x @ concat (map (\<lambda>y. sep @ y) xs') @ sep) @ join sep (y # ys)
      @ concat (map (\<lambda>y. sep @ y) zs)"
    by (simp add: Cons join_Cons)
  then show ?thesis by blast
qed

lemma obj_put_keys: "set (map fst (obj_put obj k v)) = insert k (set (map fst obj))"
proof (induction obj)
  case Nil
  then show ?case by simp
next
  case (Cons e obj)
  obtain k' v' where e: "e = (k', v')" by (cases e)
  from Cons show ?case by (auto simp add: e)
qed

lemma obj_put_absent: "k \<notin> set (map fst obj) \<Longrightarrow> obj_put obj k v = obj @ [(k, v)]"
proof (induction obj)
  case Nil
  then show ?case by simp
next
  case (Cons e obj)
  obtain k' v' where e: "e = (k', v')" by (cases e)
  from Cons show ?case by (auto simp add: e)
qed

lemma obj_put_append_absent:
  "k \<notin> set (map fst xs) \<Longrightarrow> obj_put (xs @ ys) k v = xs @ obj_put ys k v"
proof (induction xs)
  case Nil
  then show ?case by simp
next
  case (Cons e xs)
  obtain k' v' where e: "e = (k', v')" by (cases e)
  from Cons show ?case by (auto simp add: e)
qed

lemma obj_put_append_present:
  "k \<in> set (map fst xs) \<Longrightarrow> obj_put (xs @ ys) k v = obj_put xs k v @ ys"
proof (induction xs)
  case Nil
  then show ?case by simp
next
  case (Cons e xs)
  obtain k' v' where e: "e = (k', v')" by (cases e)
  from Cons show ?case by (cases "k' = k") (simp_all add: e)
qed

lemma obj_put_member: "(k, v) \<in> set (obj_put obj k v)"
proof (induction obj)
  case Nil
  then show ?case by simp
next
  case (Cons e obj)
  obtain k' v' where e: "e = (k', v')" by (cases e)
  from Cons show ?case by (simp add: e)
qed

lemma obj_put_distinct: "distinct (map fst obj) \<Longrightarrow> distinct (map fst (obj_put obj k v))"
proof (induction obj)
  case Nil
  then show ?case by simp
next
  case (Cons e obj)
  obtain k' v' where e: "e = (k', v')" by (cases e)
  from Cons obj_put_keys [of obj k v] show ?case
    by (cases "k' = k") (simp_all add: e)
qed

lemma fromEntries_snoc: "fromEntries (es @ [(k, v)]) = obj_put (fromEntries es) k v"
  by (simp add: fromEntries_def)

lemma fromEntries_keys: "set (map fst (fromEntries es)) = set (map fst es)"
proof (induction es rule: rev_induct)
  case Nil
  then show ?case by (simp add: fromEntries_def)
next
  case (snoc e es)
  obtain k v where e: "e = (k, v)" by (cases e)
  from snoc show ?case
    unfolding e fromEntries_snoc obj_put_keys by simp
qed

lemma fromEntries_distinct: "distinct (map fst (fromEntries es))"
proof (induction es rule: rev_induct)
  case Nil
  then show ?case by (simp add: fromEntries_def)
next
  case (snoc e es)
  obtain k v where e: "e = (k, v)" by (cases e)
  from snoc show ?case
    unfolding e fromEntries_snoc by (rule obj_put_distinct)
qed

lemma defined_entries_append:
  "defined_entries (xs @ ys) = defined_entries xs @ defined_entries ys"
  by (simp add: defined_entries_def)

lemma defined_entries_Nil: "defined_entries [] = []"
  by (simp add: defined_entries_def)

lemma defined_entries_Cons:
  "defined_entries ((k, v) # es) =
     (case v of None \<Rightarrow> [] | Some s \<Rightarrow> if s = [] then [] else [(k, s)]) @ defined_entries es"
  by (cases v) (simp_all add: defined_entries_def)

lemma defined_entries_keys:
  "k \<in> set (map fst (defined_entries es)) \<Longrightarrow> k \<in> set (map fst es)"
proof (induction es)
  case Nil
  then show ?case by (simp add: defined_entries_Nil)
next
  case (Cons e es)
  obtain k' v' where e: "e = (k', v')" by (cases e)
  from Cons show ?case
    unfolding e defined_entries_Cons by (cases v') (auto split: if_splits)
qed

lemma pixelate_Some: "W \<noteq> NaN \<Longrightarrow> pixelate (Some W) = Some (number_to_string W @ ''px'')"
  by (cases "W = Fin 0") (simp_all add: pixelate_def truthy_num_def)

lemma fromEntries_append3:
  "fromEntries (es @ [(k1, v1), (k2, v2), (k3, v3)]) =
     obj_put (obj_put (obj_put (fromEntries es) k1 v1) k2 v2) k3 v3"
  by (simp add: fromEntries_def)

lemma styles_fixed:
  assumes "W \<noteq> NaN" and "H \<noteq> NaN"
  shows "\<exists>X Y. styles (Some W) (Some H) aspectRatio (Some Fixed) objectFit objectPosition background =
           X @ [(''width'', number_to_string W @ ''px''), (''height'', number_to_string H @ ''px'')] @ Y \<and>
         (''object-position'', ''top left'') \<in> set (X @ Y)"
proof -
  define pre where "pre =
     [(''object-fit'', Some (case objectFit of None \<Rightarrow> ''cover'' | Some f \<Rightarrow> f)),
      (''object-position'', Some (case objectPosition of None \<Rightarrow> ''center'' | Some p \<Rightarrow> p))]
     @ (if is_url background
        then [(''background-image'', Some (''url('' @ the background @ '')'')),
              (''background-size'', Some ''cover''),
              (''background-repeat'', Some ''no-repeat'')]
        else [(''background'', background)])"
  define L where "L = fromEntries (defined_entries pre)"
  let ?w = "(''width'', number_to_string W @ ''px'')"
  let ?h = "(''height'', number_to_string H @ ''px'')"
  have e: "styleEntries (Some W) (Some H) aspectRatio (Some Fixed) objectFit objectPosition
      background =
      pre @ [(''width'', pixelate (Some W)), (''height'', pixelate (Some H)),
             (''object-position'', Some ''top left'')]"
    by (simp add: styleEntries_def pre_def)
  have d: "defined_entries (pre @ [(''width'', pixelate (Some W)), (''height'', pixelate (Some H)),
             (''object-position'', Some ''top left'')]) =
      defined_entries pre @ [?w, ?h, (''object-position'', ''top left'')]"
    by (simp add: defined_entries_append pixelate_Some assms defined_entries_Cons
        defined_entries_Nil)
  have s: "styles (Some W) (Some H) aspectRatio (Some Fixed) objectFit objectPosition background =
      obj_put (obj_put (obj_put L ''width'' (number_to_string W @ ''px''))
        ''height'' (number_to_string H @ ''px'')) ''object-position'' ''top left''"
    by (simp only: styles_def e d fromEntries_append3 L_def)
  define K where "K = {''object-fit'', ''object-position'', ''background-image'',
      ''background-size'', ''background-repeat'', ''background''}"
  have kp: "set (map fst pre) \<subseteq> K"
    by (auto simp add: pre_def K_def)
  have kl: "set (map fst L) \<subseteq> set (map fst pre)"
    unfolding L_def fromEntries_keys by (rule subsetI) (rule defined_entries_keys)
  from kl kp have kL: "set (map fst L) \<subseteq> K"
    by (rule subset_trans)
  have wK: "''width'' \<notin> K"
    by (simp add: K_def)
  have hK: "''height'' \<notin> K"
    by (simp add: K_def)
  from kL wK have nw: "''width'' \<notin> set (map fst L)"
    by (rule contra_subsetD)
  from kL hK have "''height'' \<notin> set (map fst L)"
    by (rule contra_subsetD)
  then have nh: "''height'' \<notin> set (map fst (L @ [?w]))"
    by simp
  have s2: "styles (Some W) (Some H) aspectRatio (Some Fixed) objectFit objectPosition background =
      obj_put (L @ [?w, ?h]) ''object-position'' ''top left''"
    unfolding s obj_put_absent [OF nw] obj_put_absent [OF nh] by simp
  show ?thesis
  proof (cases "''object-position'' \<in> set (map fst L)")
    case True
    have "styles (Some W) (Some H) aspectRatio (Some Fixed) objectFit objectPosition background =
        obj_put L ''object-position'' ''top left'' @ [?w, ?h] @ []"
      unfolding s2 using True by (simp add: obj_put_append_present)
    moreover have "(''object-position'', ''top left'') \<in>
        set (obj_put L ''object-position'' ''top left'' @ [])"
      using obj_put_member [of "''object-position''" "''top left''" L] by simp
    ultimately show ?thesis by blast
  next
    case False
    have "styles (Some W) (Some H) aspectRatio (Some Fixed) objectFit objectPosition background =
        L @ [?w, ?h] @ [(''object-position'', ''top left'')]"
      unfolding s2 using False by (simp add: obj_put_append_absent)
    moreover have "(''object-position'', ''top left'') \<in>
        set (L @ [(''object-position'', ''top left'')])"
      by simp
    ultimately show ?thesis by blast
  qed
qed

lemma styles_distinct:
  "distinct (map fst (styles width height aspectRatio layout objectFit objectPosition background))"
  by (simp add: styles_def fromEntries_distinct)

lemma getStyle_fixed_default:
  assumes "W \<noteq> NaN" and "H \<noteq> NaN"
  shows "getStyle (Some W) (Some H) aspectRatio (Some Fixed) None None None =
     ''object-fit: cover; object-position: top left; width: '' @ number_to_string W
     @ ''px; height: '' @ number_to_string H @ ''px;''"
  using assms
  by (simp add: getStyle_def styles_def styleEntries_def is_url_def pixelate_Some
      defined_entries_Cons defined_entries_Nil fromEntries_def join_def css_declaration_def)

lemma join_single: "join sep [x] = x"
  by (simp add: join_def)

lemma getStyle_contains:
  assumes "e \<in> set (styles width height aspectRatio layout objectFit objectPosition background)"
  shows "\<exists>p q. getStyle width height aspectRatio layout objectFit objectPosition background =
           p @ css_declaration e @ q"
proof -
  from assms obtain A B
    where s: "styles width height aspectRatio layout objectFit objectPosition background =
      A @ e # B"
    by (auto dest: split_list)
  have "getStyle width height aspectRatio layout objectFit objectPosition background =
      join '' '' (map css_declaration A @ (css_declaration e # []) @ map css_declaration B)"
    by (simp add: getStyle_def s)
  with join_middle [of "'' ''" "map css_declaration A" "css_declaration e" "[]"
      "map css_declaration B"]
  show ?thesis
    by (simp only: join_single)
qed

lemma getStyle_fixed_contains:
  assumes "W \<noteq> NaN" and "H \<noteq> NaN"
  shows "(\<exists>p q. getStyle (Some W) (Some H) aspectRatio (Some Fixed) objectFit objectPosition background =
            p @ ''width: '' @ number_to_string W @ ''px; height: '' @ number_to_string H
              @ ''px;'' @ q) \<and>
         (\<exists>p q. getStyle (Some W) (Some H) aspectRatio (Some Fixed) objectFit objectPosition background = p @ ''object-position: top left;'' @ q) \<and>
         map_of (styles (Some W) (Some H) aspectRatio (Some Fixed) objectFit objectPosition background) ''object-position'' = Some ''top left'' \<and>
         map_of (styles (Some W) (Some H) aspectRatio (Some Fixed) objectFit objectPosition background) ''width'' = Some (number_to_string W @ ''px'') \<and>
         map_of (styles (Some W) (Some H) aspectRatio (Some Fixed) objectFit objectPosition background) ''height'' = Some (number_to_string H @ ''px'')"
proof -
  let ?w = "(''width'', number_to_string W @ ''px'')"
  let ?h = "(''height'', number_to_string H @ ''px'')"
  from styles_fixed [OF assms] obtain X Y
    where s: "styles (Some W) (Some H) aspectRatio (Some Fixed) objectFit objectPosition background = X @ [?w, ?h] @ Y"
      and m: "(''object-position'', ''top left'') \<in> set (X @ Y)"
    by blast
  have d: "distinct (map fst (styles (Some W) (Some H) aspectRatio (Some Fixed) objectFit objectPosition background))"
    by (rule styles_distinct)
  have "getStyle (Some W) (Some H) aspectRatio (Some Fixed) objectFit objectPosition background = join '' '' (map css_declaration X
      @ (css_declaration ?w # [css_declaration ?h]) @ map css_declaration Y)"
    by (simp add: getStyle_def s)
  with join_middle [of "'' ''" "map css_declaration X" "css_declaration ?w"
      "[css_declaration ?h]" "map css_declaration Y"]
  have "\<exists>p q. getStyle (Some W) (Some H) aspectRatio (Some Fixed) objectFit objectPosition background = p @ join '' '' (css_declaration ?w # [css_declaration ?h]) @ q"
    by simp
  moreover have "join '' '' (css_declaration ?w # [css_declaration ?h]) =
      ''width: '' @ number_to_string W @ ''px; height: '' @ number_to_string H @ ''px;''"
    by (simp add: join_def css_declaration_def)
  ultimately have a: "\<exists>p q. getStyle (Some W) (Some H) aspectRatio (Some Fixed) objectFit objectPosition background =
      p @ ''width: '' @ number_to_string W @ ''px; height: '' @ number_to_string H
        @ ''px;'' @ q"
    by (simp only: append_assoc)
  from m have mo: "(''object-position'', ''top left'') \<in> set (styles (Some W) (Some H) aspectRatio (Some Fixed) objectFit objectPosition background)"
    by (simp add: s)
  have mw: "?w \<in> set (styles (Some W) (Some H) aspectRatio (Some Fixed) objectFit objectPosition background)"
    by (simp add: s)
  have mh: "?h \<in> set (styles (Some W) (Some H) aspectRatio (Some Fixed) objectFit objectPosition background)"
    by (simp add: s)
  from getStyle_contains [OF mo]
  have b: "\<exists>p q. getStyle (Some W) (Some H) aspectRatio (Some Fixed) objectFit objectPosition background = p @ ''object-position: top left;'' @ q"
    by (simp add: css_declaration_def)
  from d mo have c: "map_of (styles (Some W) (Some H) aspectRatio (Some Fixed) objectFit objectPosition background) ''object-position'' = Some ''top left''"
    by (simp only: map_of_eq_Some_iff)
  from d mw have e: "map_of (styles (Some W) (Some H) aspectRatio (Some Fixed) objectFit objectPosition background) ''width'' = Some (number_to_string W @ ''px'')"
    by (simp only: map_of_eq_Some_iff)
  from d mh have f: "map_of (styles (Some W) (Some H) aspectRatio (Some Fixed) objectFit objectPosition background) ''height'' = Some (number_to_string H @ ''px'')"
    by (simp only: map_of_eq_Some_iff)
  from a b c e f show ?thesis
    by (intro conjI)
qed

text \<open>
  C2, as amended. With the layout \<open>fixed\<close>, \<open>getBreakpoints\<close> returns the empty list when
  the width is undefined, zero or NaN; for any other width \<open>W\<close> it returns exactly
  \<open>[W, 2 * W]\<close>, and \<open>getSizes\<close> returns \<open>{W}px\<close>. For a width \<open>W\<close> and a height \<open>H\<close>
  that are not NaN, the style of \<open>getStyle\<close> contains \<open>width: {W}px; height: {H}px;\<close> and
  \<open>object-position: top left;\<close>; its properties \<open>width\<close>, \<open>height\<close> and
  \<open>object-position\<close> have the values \<open>{W}px\<close>, \<open>{H}px\<close> and \<open>top left\<close>, and no property
  occurs twice, so that \<open>top left\<close> has replaced the base value of \<open>object-position\<close>.
  With no \<open>objectFit\<close>, \<open>objectPosition\<close> and \<open>background\<close>, the style is
  \<open>object-fit: cover; object-position: top left; width: {W}px; height: {H}px;\<close>.
\<close>

theorem fixed_layout:
  "getBreakpoints None breakpoints Fixed = [] \<and>
   getBreakpoints (Some (Fin 0)) breakpoints Fixed = [] \<and>
   getBreakpoints (Some NaN) breakpoints Fixed = [] \<and>
   (W \<noteq> Fin 0 \<and> W \<noteq> NaN \<longrightarrow>
      getBreakpoints (Some W) breakpoints Fixed = [W, js_mul W (Fin 2)] \<and>
      getSizes (Some W) (Some Fixed) = Some (number_to_string W @ ''px'')) \<and>
   (W \<noteq> NaN \<and> H \<noteq> NaN \<longrightarrow>
      (\<exists>p q. getStyle (Some W) (Some H) aspectRatio (Some Fixed) objectFit objectPosition background =
         p @ ''width: '' @ number_to_string W @ ''px; height: '' @ number_to_string H
           @ ''px;'' @ q) \<and>
      (\<exists>p q. getStyle (Some W) (Some H) aspectRatio (Some Fixed) objectFit objectPosition background = p @ ''object-position: top left;'' @ q) \<and>
      map_of (styles (Some W) (Some H) aspectRatio (Some Fixed) objectFit objectPosition background) ''object-position'' = Some ''top left'' \<and>
      map_of (styles (Some W) (Some H) aspectRatio (Some Fixed) objectFit objectPosition background) ''width'' = Some (number_to_string W @ ''px'') \<and>
      map_of (styles (Some W) (Some H) aspectRatio (Some Fixed) objectFit objectPosition background) ''height'' = Some (number_to_string H @ ''px'') \<and>
      distinct (map fst (styles (Some W) (Some H) aspectRatio (Some Fixed) objectFit objectPosition background)) \<and>
      getStyle (Some W) (Some H) aspectRatio (Some Fixed) None None None =
        ''object-fit: cover; object-position: top left; width: '' @ number_to_string W
        @ ''px; height: '' @ number_to_string H @ ''px;'')"
proof -
  have a: "getBreakpoints None breakpoints Fixed = []"
    by (simp add: getBreakpoints_def number_or_undefined_None)
  have b: "getBreakpoints (Some (Fin 0)) breakpoints Fixed = []"
    by (simp add: getBreakpoints_falsy)
  have c: "getBreakpoints (Some NaN) breakpoints Fixed = []"
    by (simp add: getBreakpoints_falsy)
  have d: "W \<noteq> Fin 0 \<and> W \<noteq> NaN \<longrightarrow>
      getBreakpoints (Some W) breakpoints Fixed = [W, js_mul W (Fin 2)] \<and>
      getSizes (Some W) (Some Fixed) = Some (number_to_string W @ ''px'')"
    by (simp add: getBreakpoints_truthy getSizes_def number_or_undefined_Some)
  have e: "W \<noteq> NaN \<and> H \<noteq> NaN \<longrightarrow>
      (\<exists>p q. getStyle (Some W) (Some H) aspectRatio (Some Fixed) objectFit objectPosition background =
         p @ ''width: '' @ number_to_string W @ ''px; height: '' @ number_to_string H
           @ ''px;'' @ q) \<and>
      (\<exists>p q. getStyle (Some W) (Some H) aspectRatio (Some Fixed) objectFit objectPosition background = p @ ''object-position: top left;'' @ q) \<and>
      map_of (styles (Some W) (Some H) aspectRatio (Some Fixed) objectFit objectPosition background) ''object-position'' = Some ''top left'' \<and>
      map_of (styles (Some W) (Some H) aspectRatio (Some Fixed) objectFit objectPosition background) ''width'' = Some (number_to_string W @ ''px'') \<and>
      map_of (styles (Some W) (Some H) aspectRatio (Some Fixed) objectFit objectPosition background) ''height'' = Some (number_to_string H @ ''px'') \<and>
      distinct (map fst (styles (Some W) (Some H) aspectRatio (Some Fixed) objectFit objectPosition background)) \<and>
      getStyle (Some W) (Some H) aspectRatio (Some Fixed) None None None =
        ''object-fit: cover; object-position: top left; width: '' @ number_to_string W
        @ ''px; height: '' @ number_to_string H @ ''px;''"
  proof
    assume h: "W \<noteq> NaN \<and> H \<noteq> NaN"
    then have w: "W \<noteq> NaN" and h': "H \<noteq> NaN"
      by simp_all
    note f = getStyle_fixed_contains [OF w h', of aspectRatio objectFit objectPosition
        background]
    from f have f1: "\<exists>p q. getStyle (Some W) (Some H) aspectRatio (Some Fixed) objectFit objectPosition background =
         p @ ''width: '' @ number_to_string W @ ''px; height: '' @ number_to_string H
           @ ''px;'' @ q"
      by (rule conjunct1)
    from f have f2: "\<exists>p q. getStyle (Some W) (Some H) aspectRatio (Some Fixed) objectFit objectPosition background = p @ ''object-position: top left;'' @ q"
      by (elim conjE)
    from f have f3: "map_of (styles (Some W) (Some H) aspectRatio (Some Fixed) objectFit objectPosition background) ''object-position'' = Some ''top left''"
      by (elim conjE)
    from f have f4: "map_of (styles (Some W) (Some H) aspectRatio (Some Fixed) objectFit objectPosition background) ''width'' = Some (number_to_string W @ ''px'')"
      by (elim conjE)
    from f have f5: "map_of (styles (Some W) (Some H) aspectRatio (Some Fixed) objectFit objectPosition background) ''height'' = Some (number_to_string H @ ''px'')"
      by (elim conjE)
    have f6: "distinct (map fst (styles (Some W) (Some H) aspectRatio (Some Fixed) objectFit objectPosition background))"
      by (rule styles_distinct)
    have f7: "getStyle (Some W) (Some H) aspectRatio (Some Fixed) None None None =
        ''object-fit: cover; object-position: top left; width: '' @ number_to_string W
        @ ''px; height: '' @ number_to_string H @ ''px;''"
      using w h' by (rule getStyle_fixed_default)
    from f1 f2 f3 f4 f5 f6 f7 show "(\<exists>p q. getStyle (Some W) (Some H) aspectRatio (Some Fixed) objectFit objectPosition background =
         p @ ''width: '' @ number_to_string W @ ''px; height: '' @ number_to_string H
           @ ''px;'' @ q) \<and>
      (\<exists>p q. getStyle (Some W) (Some H) aspectRatio (Some Fixed) objectFit objectPosition background = p @ ''object-position: top left;'' @ q) \<and>
      map_of (styles (Some W) (Some H) aspectRatio (Some Fixed) objectFit objectPosition background) ''object-position'' = Some ''top left'' \<and>
      map_of (styles (Some W) (Some H) aspectRatio (Some Fixed) objectFit objectPosition background) ''width'' = Some (number_to_string W @ ''px'') \<and>
      map_of (styles (Some W) (Some H) aspectRatio (Some Fixed) objectFit objectPosition background) ''height'' = Some (number_to_string H @ ''px'') \<and>
      distinct (map fst (styles (Some W) (Some H) aspectRatio (Some Fixed) objectFit objectPosition background)) \<and>
      getStyle (Some W) (Some H) aspectRatio (Some Fixed) None None None =
        ''object-fit: cover; object-position: top left; width: '' @ number_to_string W
        @ ''px; height: '' @ number_to_string H @ ''px;''"
      by (intro conjI)
  qed
  from a b c d e show ?thesis
    by (intro conjI)
qed

theorem fixed_layout_witness:
  "(Fin 800 \<noteq> Fin 0 \<and> Fin 800 \<noteq> NaN) \<and>
   (Fin 800 \<noteq> NaN \<and> Fin 600 \<noteq> NaN) \<and>
   getBreakpoints (Some (Fin 800)) None Fixed = [Fin 800, Fin 1600] \<and>
   getSizes (Some (Fin 800)) (Some Fixed) = Some ''800px'' \<and>
   map_of (styles (Some (Fin 800)) (Some (Fin 600)) None (Some Fixed) (Some ''fill'')
     (Some ''bottom'') (Some ''red'')) ''object-position'' = Some ''top left'' \<and>
   getStyle (Some (Fin 800)) (Some (Fin 600)) None (Some Fixed) None None None =
     ''object-fit: cover; object-position: top left; width: 800px; height: 600px;''"
proof -
  have h1: "Fin 800 \<noteq> Fin 0 \<and> Fin 800 \<noteq> NaN"
    by simp
  have h2: "Fin 800 \<noteq> NaN \<and> Fin 600 \<noteq> NaN"
    by simp
  have j: "js_mul (Fin 800) (Fin 2) = Fin 1600"
    by code_simp
  have n: "number_to_string (Fin 600) = ''600''"
    by code_simp
  note r1 = fixed_layout [where W = "Fin 800" and breakpoints = None,
      THEN conjunct2, THEN conjunct2, THEN conjunct2, THEN conjunct1, rule_format, OF h1]
  note r2 = fixed_layout [where W = "Fin 800" and H = "Fin 600" and aspectRatio = None
      and objectFit = "Some ''fill''" and objectPosition = "Some ''bottom''"
      and background = "Some ''red''",
      THEN conjunct2, THEN conjunct2, THEN conjunct2, THEN conjunct2, rule_format, OF h2]
  from r1 have b: "getBreakpoints (Some (Fin 800)) None Fixed = [Fin 800, Fin 1600]"
    by (simp only: j)
  from r1 have s: "getSizes (Some (Fin 800)) (Some Fixed) = Some ''800px''"
    by (simp add: number_to_string_800)
  from r2 have m: "map_of (styles (Some (Fin 800)) (Some (Fin 600)) None (Some Fixed)
      (Some ''fill'') (Some ''bottom'') (Some ''red'')) ''object-position'' = Some ''top left''"
    by (elim conjE)
  from r2 have "getStyle (Some (Fin 800)) (Some (Fin 600)) None (Some Fixed) None None None =
      ''object-fit: cover; object-position: top left; width: '' @ number_to_string (Fin 800)
      @ ''px; height: '' @ number_to_string (Fin 600) @ ''px;''"
    by (elim conjE)
  then have g: "getStyle (Some (Fin 800)) (Some (Fin 600)) None (Some Fixed) None None None =
      ''object-fit: cover; object-position: top left; width: 800px; height: 600px;''"
    by (simp add: number_to_string_800 n)
  show ?thesis
    by (rule conjI [OF h1 conjI [OF h2 conjI [OF b conjI [OF s conjI [OF m g]]]]])
qed

text \<open>
  C2 as it was stated fails for the width 0: the width is there, and with the layout
  \<open>fixed\<close> the breakpoints are the empty list, not \<open>[0, 0]\<close>, while the style has
  \<open>width: 0px\<close>.
\<close>

theorem fixed_layout_zero_width_counterexample:
  "getBreakpoints (Some (Fin 0)) None Fixed = [] \<and>
   js_mul (Fin 0) (Fin 2) = Fin 0 \<and>
   getStyle (Some (Fin 0)) (Some (Fin 600)) None (Some Fixed) None None None =
     ''object-fit: cover; object-position: top left; width: 0px; height: 600px;''"
  by code_simp

end
